theory Spec2Isabelle
  imports Main "HOL-Library.Finite_Map" "HOL-Library.Char_ord" "HOL-Library.List_Lexorder"
begin

section \<open>Python classes and their method resolution order\<close>

text \<open>
  A class is identified by its name and carries the linearisation of its strict
  ancestors, that is the tail of its \<^verbatim>\<open>__mro__\<close>, most specific first. The interpreter
  computes that attribute when the class is created; \<^verbatim>\<open>T.mro()\<close> and
  \<^verbatim>\<open>type.mro(T)\<close> return the class itself followed by these ancestors. Single and
  multiple inheritance are both covered: only the linearisation is visible to
  \<^verbatim>\<open>matchable\<close>.
\<close>

datatype ty = Class string "ty list"

fun mro :: "ty \<Rightarrow> ty list" where
  "mro (Class n anc) = Class n anc # anc"

definition object_t :: ty where "object_t = Class ''object'' []"
definition int_t :: ty where "int_t = Class ''int'' [object_t]"
definition str_t :: ty where "str_t = Class ''str'' [object_t]"
definition list_t :: ty where "list_t = Class ''list'' [object_t]"
definition dict_t :: ty where "dict_t = Class ''dict'' [object_t]"
definition set_t :: ty where "set_t = Class ''set'' [object_t]"
definition NoneType_t :: ty where "NoneType_t = Class ''NoneType'' [object_t]"
definition type_t :: ty where "type_t = Class ''type'' [object_t]"
definition function_t :: ty where "function_t = Class ''function'' [object_t]"

text \<open>The three wrapper classes of \<^verbatim>\<open>spec.py\<close>.\<close>

definition Wrapper_t :: ty where "Wrapper_t = Class ''Wrapper'' [object_t]"
definition CopyUpdate_t :: ty where "CopyUpdate_t = Class ''CopyUpdate'' [Wrapper_t, object_t]"
definition LastSeenWins_t :: ty where "LastSeenWins_t = Class ''LastSeenWins'' [Wrapper_t, object_t]"

section \<open>Python values\<close>

text \<open>
  The universe of objects: \<^verbatim>\<open>None\<close>, integers and strings (the hashable scalars,
  also used as attribute names, keys and indices), lists of scalars, dictionaries
  from scalars to scalars, instances of other classes (the number is the
  object's identity, the list holds the attributes stored on the instance itself;
  such an object defines no ordering, no item access and no \<^verbatim>\<open>|\<close>), and the four
  callables that \<^verbatim>\<open>WRAPPER_TYPES\<close> stores. Dictionaries are finite maps, so that
  equality of values is Python's \<^verbatim>\<open>==\<close>. A string is a list of characters with code
  points below 256. Booleans, floats and sets are outside the universe.
\<close>

datatype atom = ANone | AInt int | AStr string

datatype callable = ClsWrapper | ClsCopyUpdate | ClsLastSeenWins | LambdaIdentity

datatype pyval =
    Atom atom
  | PList "atom list"
  | PDict "(atom, atom) fmap"
  | PInst nat ty "(string \<times> pyval) list"
  | PCallable callable

text \<open>
  \<^verbatim>\<open>class Wrapper\<close> and its two subclasses: a wrapper instance holds one attribute,
  \<^verbatim>\<open>obj\<close>. Wrappers are kept apart from plain values: attributes, items and
  reference values are plain.
\<close>

datatype wrapper_class = Wrapper | CopyUpdate | LastSeenWins

datatype "value" = Plain pyval | Wrap wrapper_class "value"

datatype exc =
    AttributeError
  | KeyError
  | IndexError
  | TypeError
  | ValueError
  | NotImplementedError
  | NoMatchError "value"

fun wrapper_type :: "wrapper_class \<Rightarrow> ty" where
  "wrapper_type Wrapper = Wrapper_t"
| "wrapper_type CopyUpdate = CopyUpdate_t"
| "wrapper_type LastSeenWins = LastSeenWins_t"

fun type_of :: "value \<Rightarrow> ty" where
  "type_of (Plain (Atom ANone)) = NoneType_t"
| "type_of (Plain (Atom (AInt i))) = int_t"
| "type_of (Plain (Atom (AStr s))) = str_t"
| "type_of (Plain (PList xs)) = list_t"
| "type_of (Plain (PDict m)) = dict_t"
| "type_of (Plain (PInst i t attrs)) = t"
| "type_of (Plain (PCallable LambdaIdentity)) = function_t"
| "type_of (Plain (PCallable c)) = type_t"
| "type_of (Wrap k v) = wrapper_type k"

definition isinstance :: "value \<Rightarrow> ty \<Rightarrow> bool" where
  "isinstance obj t = (t \<in> set (mro (type_of obj)))"

subsection \<open>Attribute and item access\<close>

text \<open>
  \<^verbatim>\<open>getattr(obj, name)\<close>: the name must be a string. Attribute lookup goes through
  the type of the object first: what it finds there (the attributes of the class
  and of the built-in types: properties, methods, class-level defaults,
  \<^verbatim>\<open>__doc__\<close>, the \<^verbatim>\<open>real\<close> of an integer, a \<^verbatim>\<open>__getattr__\<close> hook) is not part of the
  values above; it is the parameter \<open>ns\<close>, which gives for an object and a name
  what the lookup returns or raises (a property may raise any error), or \<open>None\<close>
  when the name is left to what is stored on the object itself. A name found in
  neither place raises \<^verbatim>\<open>AttributeError\<close>. Every function that may read an attribute
  takes this parameter, and every statement holds for every namespace.
\<close>

type_synonym namespace = "value \<Rightarrow> string \<Rightarrow> (exc + value) option"

fun stored_attr :: "value \<Rightarrow> string \<Rightarrow> value option" where
  "stored_attr (Plain (PInst i t attrs)) n = map_option Plain (map_of attrs n)"
| "stored_attr (Wrap k v) n = (if n = ''obj'' then Some v else None)"
| "stored_attr obj n = None"

fun py_getattr :: "namespace \<Rightarrow> value \<Rightarrow> atom \<Rightarrow> exc + value" where
  "py_getattr ns obj (AStr n) =
     (case ns obj n of
        Some r \<Rightarrow> r
      | None \<Rightarrow> (case stored_attr obj n of Some v \<Rightarrow> Inr v | None \<Rightarrow> Inl AttributeError))"
| "py_getattr ns obj name = Inl TypeError"

text \<open>The namespace that finds nothing, for objects whose stored attributes are all
  that a statement reads.\<close>

definition no_attrs :: namespace where
  "no_attrs obj n = None"

text \<open>Indexing a sequence: a negative index counts from the end.\<close>

definition py_index :: "'a list \<Rightarrow> int \<Rightarrow> exc + 'a" where
  "py_index xs i =
     (if 0 \<le> i \<and> i < int (length xs) then Inr (xs ! nat i)
      else if i < 0 \<and> - int (length xs) \<le> i then Inr (xs ! nat (i + int (length xs)))
      else Inl IndexError)"

text \<open>
  \<^verbatim>\<open>obj[key]\<close>: a dictionary raises \<^verbatim>\<open>KeyError\<close> on a missing key, a list or a
  string raises \<^verbatim>\<open>IndexError\<close> out of range and \<^verbatim>\<open>TypeError\<close> on a key that is no
  integer, and an object without \<^verbatim>\<open>__getitem__\<close> raises \<^verbatim>\<open>TypeError\<close>.
\<close>

fun py_getitem :: "value \<Rightarrow> atom \<Rightarrow> exc + value" where
  "py_getitem (Plain (PDict m)) k =
     (case fmlookup m k of Some v \<Rightarrow> Inr (Plain (Atom v)) | None \<Rightarrow> Inl KeyError)"
| "py_getitem (Plain (PList xs)) (AInt i) =
     (case py_index xs i of Inl e \<Rightarrow> Inl e | Inr a \<Rightarrow> Inr (Plain (Atom a)))"
| "py_getitem (Plain (Atom (AStr s))) (AInt i) =
     (case py_index s i of Inl e \<Rightarrow> Inl e | Inr c \<Rightarrow> Inr (Plain (Atom (AStr [c]))))"
| "py_getitem obj k = Inl TypeError"

subsection \<open>The comparison operators of the \<^verbatim>\<open>operator\<close> module\<close>

datatype cmp_op = OpLt | OpLe | OpEq | OpNe | OpGe | OpGt

fun compare_with :: "cmp_op \<Rightarrow> 'a::linorder \<Rightarrow> 'a \<Rightarrow> bool" where
  "compare_with OpLt a b = (a < b)"
| "compare_with OpLe a b = (a \<le> b)"
| "compare_with OpEq a b = (a = b)"
| "compare_with OpNe a b = (a \<noteq> b)"
| "compare_with OpGe a b = (a \<ge> b)"
| "compare_with OpGt a b = (a > b)"

text \<open>Ordering two scalars: integers with integers, strings with strings.\<close>

fun atom_ord :: "cmp_op \<Rightarrow> atom \<Rightarrow> atom \<Rightarrow> exc + bool" where
  "atom_ord op (AInt a) (AInt b) = Inr (compare_with op a b)"
| "atom_ord op (AStr a) (AStr b) = Inr (compare_with op a b)"
| "atom_ord op a b = Inl TypeError"

text \<open>
  Ordering two lists: the first position at which the elements are not equal
  decides, by ordering those two elements; if there is none the lengths decide.
\<close>

fun list_ord :: "cmp_op \<Rightarrow> atom list \<Rightarrow> atom list \<Rightarrow> exc + bool" where
  "list_ord op [] [] = Inr (compare_with op (0::nat) 0)"
| "list_ord op [] (y # ys) = Inr (compare_with op (0::nat) 1)"
| "list_ord op (x # xs) [] = Inr (compare_with op (1::nat) 0)"
| "list_ord op (x # xs) (y # ys) = (if x = y then list_ord op xs ys else atom_ord op x y)"

fun py_ord :: "cmp_op \<Rightarrow> value \<Rightarrow> pyval \<Rightarrow> exc + bool" where
  "py_ord op (Plain (Atom a)) (Atom b) = atom_ord op a b"
| "py_ord op (Plain (PList xs)) (PList ys) = list_ord op xs ys"
| "py_ord op v r = Inl TypeError"

text \<open>
  \<^verbatim>\<open>op(retrieved, ref)\<close> for the six operators that \<^verbatim>\<open>MatchCharacteristic\<close>
  builds comparisons from. Equality never raises; a wrapper is equal to no plain
  value.
\<close>

fun apply_op :: "cmp_op \<Rightarrow> value \<Rightarrow> pyval \<Rightarrow> exc + bool" where
  "apply_op OpEq v r = Inr (v = Plain r)"
| "apply_op OpNe v r = Inr (v \<noteq> Plain r)"
| "apply_op op v r = py_ord op v r"

section \<open>Conditions (\<^verbatim>\<open>match.py\<close>)\<close>

text \<open>
  \<^verbatim>\<open>IsInstance(tp)\<close>, and \<^verbatim>\<open>Comparison(tp, identifier, op, ref)\<close> with its subclasses
  \<^verbatim>\<open>CompareAttr\<close> and \<^verbatim>\<open>CompareItem\<close>. The abstract base \<^verbatim>\<open>Condition\<close>, whose
  methods all raise \<^verbatim>\<open>NotImplementedError\<close>, has no instances here.
\<close>

datatype comparison_class = Comparison_base | CompareAttr | CompareItem

datatype cond =
    IsInstance ty
  | Comparison comparison_class ty atom cmp_op pyval

fun cond_type :: "cond \<Rightarrow> ty" where
  "cond_type (IsInstance t) = t"
| "cond_type (Comparison k t i op r) = t"

text \<open>\<^verbatim>\<open>type(self) == type(other)\<close> and \<^verbatim>\<open>isinstance(x, Comparison)\<close>.\<close>

fun same_class :: "cond \<Rightarrow> cond \<Rightarrow> bool" where
  "same_class (IsInstance t) (IsInstance u) = True"
| "same_class (Comparison k t i op r) (Comparison k' t' i' op' r') = (k = k')"
| "same_class a b = False"

fun is_Comparison :: "cond \<Rightarrow> bool" where
  "is_Comparison (Comparison k t i op r) = True"
| "is_Comparison (IsInstance t) = False"

text \<open>The class of \<open>b\<close> is a proper subclass of the class of \<open>a\<close>.\<close>

fun proper_subclass :: "cond \<Rightarrow> cond \<Rightarrow> bool" where
  "proper_subclass (Comparison k' t' i' op' r') (Comparison k t i op r) =
     (k = Comparison_base \<and> k' \<noteq> Comparison_base)"
| "proper_subclass b a = False"

subsection \<open>Equality\<close>

text \<open>
  \<^verbatim>\<open>operator.attrgetter('type', 'identifier', 'op', 'ref')\<close>; an \<^verbatim>\<open>IsInstance\<close> has
  no identifier, but \<^verbatim>\<open>Comparison.__eq__\<close> reads the attributes only of an operand of
  its own class. Equal conditions have equal hashes, so that a dictionary keyed by
  conditions is keyed by this equality.
\<close>

fun attributes :: "cond \<Rightarrow> (ty \<times> atom \<times> cmp_op \<times> pyval) option" where
  "attributes (Comparison k t i op r) = Some (t, i, op, r)"
| "attributes (IsInstance t) = None"

fun Comparison_eq :: "cond \<Rightarrow> cond \<Rightarrow> bool" where
  "Comparison_eq self other = (same_class self other \<and> attributes self = attributes other)"

fun IsInstance_eq :: "cond \<Rightarrow> cond \<Rightarrow> bool" where
  "IsInstance_eq a b = (same_class a b \<and> cond_type a = cond_type b)"

fun cond_eq :: "cond \<Rightarrow> cond \<Rightarrow> bool" where
  "cond_eq (IsInstance t) other = IsInstance_eq (IsInstance t) other"
| "cond_eq (Comparison k t i op r) other = Comparison_eq (Comparison k t i op r) other"

subsection \<open>Ordering\<close>

text \<open>
  The call \<^verbatim>\<open>T.mro()\<close>, as \<^verbatim>\<open>IsInstance.__lt__\<close> writes it. On \<^verbatim>\<open>type\<close> itself and on
  every metaclass (a class with \<^verbatim>\<open>type\<close> in its linearisation) the attribute \<^verbatim>\<open>mro\<close>
  is the unbound method of \<^verbatim>\<open>type\<close>, and the call without an argument raises
  \<^verbatim>\<open>TypeError\<close>; on every other class it is the bound method and returns the
  linearisation. (\<^verbatim>\<open>Options.match\<close> calls \<^verbatim>\<open>type.mro(T)\<close>, which is \<open>mro\<close> for every
  class.)
\<close>

definition mro_method :: "ty \<Rightarrow> exc + ty list" where
  "mro_method t = (if type_t \<in> set (mro t) then Inl TypeError else Inr (mro t))"

text \<open>
  The two \<^verbatim>\<open>__lt__\<close> methods; \<open>None\<close> is \<^verbatim>\<open>NotImplemented\<close>.
  \<^verbatim>\<open>IsInstance.__lt__\<close> asks whether its type is in the other's \<^verbatim>\<open>mro()\<close>.
\<close>

fun Comparison_lt :: "cond \<Rightarrow> cond \<Rightarrow> bool option" where
  "Comparison_lt self other =
     (if is_Comparison self \<and> is_Comparison other then Some False else None)"

fun IsInstance_lt :: "cond \<Rightarrow> cond \<Rightarrow> exc + bool option" where
  "IsInstance_lt self other =
     (if same_class self other then
        (case mro_method (cond_type other) of
           Inl e \<Rightarrow> Inl e
         | Inr ms \<Rightarrow> Inr (Some (cond_type self \<in> set ms)))
      else Inr (Some True))"

fun cond_lt :: "cond \<Rightarrow> cond \<Rightarrow> exc + bool option" where
  "cond_lt (IsInstance t) other = IsInstance_lt (IsInstance t) other"
| "cond_lt (Comparison k t i op r) other = Inr (Comparison_lt (Comparison k t i op r) other)"

text \<open>
  Both classes are decorated with \<^verbatim>\<open>functools.total_ordering\<close>, which derives
  \<^verbatim>\<open>__gt__\<close> from \<^verbatim>\<open>__lt__\<close>: an error of \<^verbatim>\<open>__lt__\<close> and \<^verbatim>\<open>NotImplemented\<close> are passed on,
  otherwise the result is \<^verbatim>\<open>not (self < other) and self != other\<close>.
\<close>

fun cond_gt :: "cond \<Rightarrow> cond \<Rightarrow> exc + bool option" where
  "cond_gt self other =
     (case cond_lt self other of
        Inl e \<Rightarrow> Inl e
      | Inr None \<Rightarrow> Inr None
      | Inr (Some r) \<Rightarrow> Inr (Some (\<not> r \<and> \<not> cond_eq self other)))"

text \<open>
  The expression \<^verbatim>\<open>a < b\<close> on two conditions, as \<^verbatim>\<open>sorted\<close> evaluates it: the
  reflected \<^verbatim>\<open>b.__gt__(a)\<close> goes first when the class of \<open>b\<close> is a proper subclass
  of the class of \<open>a\<close>, then \<^verbatim>\<open>a.__lt__(b)\<close>, then the reflected method if it was
  not tried; \<^verbatim>\<open>TypeError\<close> when every attempt returns \<^verbatim>\<open>NotImplemented\<close>. An error
  raised by a method ends the evaluation.
\<close>

definition py_lt :: "cond \<Rightarrow> cond \<Rightarrow> exc + bool" where
  "py_lt a b =
     (let reflected_first = proper_subclass b a in
      case (if reflected_first then cond_gt b a else Inr None) of
        Inl e \<Rightarrow> Inl e
      | Inr (Some r) \<Rightarrow> Inr r
      | Inr None \<Rightarrow>
          (case cond_lt a b of
             Inl e \<Rightarrow> Inl e
           | Inr (Some r) \<Rightarrow> Inr r
           | Inr None \<Rightarrow>
               (case (if reflected_first then Inr None else cond_gt b a) of
                  Inl e \<Rightarrow> Inl e
                | Inr (Some r) \<Rightarrow> Inr r
                | Inr None \<Rightarrow> Inl TypeError)))"


subsection \<open>Matching\<close>

text \<open>\<^verbatim>\<open>except (AttributeError, LookupError)\<close>: \<^verbatim>\<open>KeyError\<close> and \<^verbatim>\<open>IndexError\<close> are the
  subclasses of \<^verbatim>\<open>LookupError\<close>.\<close>

fun caught :: "exc \<Rightarrow> bool" where
  "caught AttributeError = True"
| "caught KeyError = True"
| "caught IndexError = True"
| "caught e = False"

fun retrieve :: "namespace \<Rightarrow> comparison_class \<Rightarrow> atom \<Rightarrow> value \<Rightarrow> exc + value" where
  "retrieve ns Comparison_base identifier obj = Inl NotImplementedError"
| "retrieve ns CompareAttr identifier obj = py_getattr ns obj identifier"
| "retrieve ns CompareItem identifier obj = py_getitem obj identifier"

text \<open>\<^verbatim>\<open>Comparison.match\<close>: the retrieval and the call of the operator are both
  inside the \<^verbatim>\<open>try\<close>.\<close>

definition Comparison_match ::
  "namespace \<Rightarrow> comparison_class \<Rightarrow> atom \<Rightarrow> cmp_op \<Rightarrow> pyval \<Rightarrow> value \<Rightarrow> exc + bool" where
  "Comparison_match ns k identifier op ref obj =
     (case (case retrieve ns k identifier obj of
              Inl e \<Rightarrow> Inl e
            | Inr v \<Rightarrow> apply_op op v ref) of
        Inl e \<Rightarrow> if caught e then Inr False else Inl e
      | Inr b \<Rightarrow> Inr b)"

definition IsInstance_match :: "ty \<Rightarrow> value \<Rightarrow> bool" where
  "IsInstance_match t obj = isinstance obj t"

fun cond_match :: "namespace \<Rightarrow> cond \<Rightarrow> value \<Rightarrow> exc + bool" where
  "cond_match ns (IsInstance t) obj = Inr (IsInstance_match t obj)"
| "cond_match ns (Comparison k t i op r) obj = Comparison_match ns k i op r obj"

section \<open>Wrappers and their combination (\<^verbatim>\<open>spec.py\<close>)\<close>

text \<open>
  \<^verbatim>\<open>self.obj.copy()\<close>: dictionaries and lists have the method; an instance whose
  attribute \<^verbatim>\<open>copy\<close> is a piece of data cannot be called; nothing else has the
  attribute.
\<close>

fun py_copy :: "value \<Rightarrow> exc + value" where
  "py_copy (Plain (PDict m)) = Inr (Plain (PDict m))"
| "py_copy (Plain (PList xs)) = Inr (Plain (PList xs))"
| "py_copy (Plain (PInst i t attrs)) =
     (case map_of attrs ''copy'' of Some v \<Rightarrow> Inl TypeError | None \<Rightarrow> Inl AttributeError)"
| "py_copy v = Inl AttributeError"

text \<open>
  \<^verbatim>\<open>dict.update\<close> with a sequence of key/value pairs: every element must itself
  be a sequence of length two, so among scalars only a string of two characters
  qualifies.
\<close>

fun update_pairs :: "(atom, atom) fmap \<Rightarrow> atom list \<Rightarrow> exc + (atom, atom) fmap" where
  "update_pairs m [] = Inr m"
| "update_pairs m (AStr [c, d] # xs) = update_pairs (fmupd (AStr [c]) (AStr [d]) m) xs"
| "update_pairs m (AStr s # xs) = Inl ValueError"
| "update_pairs m (a # xs) = Inl TypeError"

fun dict_update :: "(atom, atom) fmap \<Rightarrow> value \<Rightarrow> exc + (atom, atom) fmap" where
  "dict_update m (Plain (PDict m')) = Inr (m ++\<^sub>f m')"
| "dict_update m (Plain (PList xs)) = update_pairs m xs"
| "dict_update m (Plain (Atom (AStr s))) = update_pairs m (map (\<lambda>c. AStr [c]) s)"
| "dict_update m other = Inl TypeError"

text \<open>\<^verbatim>\<open>new.update(other)\<close>: a list has no such method.\<close>

fun py_update :: "value \<Rightarrow> value \<Rightarrow> exc + value" where
  "py_update (Plain (PDict m)) other =
     (case dict_update m other of Inl e \<Rightarrow> Inl e | Inr m' \<Rightarrow> Inr (Plain (PDict m')))"
| "py_update new other = Inl AttributeError"

text \<open>
  \<^verbatim>\<open>CopyUpdate.__or__\<close>, applied to the wrapper's \<^verbatim>\<open>obj\<close> and the other operand;
  \<open>Inr None\<close> is the return value \<^verbatim>\<open>NotImplemented\<close>.
\<close>

definition CopyUpdate_or :: "value \<Rightarrow> value \<Rightarrow> exc + value option" where
  "CopyUpdate_or self_obj other =
     (let other' = (case other of Wrap k v \<Rightarrow> v | Plain p \<Rightarrow> other) in
      case py_copy self_obj of
        Inl e \<Rightarrow> Inl e
      | Inr new \<Rightarrow>
          (case py_update new other' of
             Inl e \<Rightarrow> if e = ValueError \<or> e = TypeError then Inr None else Inl e
           | Inr new' \<Rightarrow> Inr (Some (Wrap CopyUpdate new'))))"

definition LastSeenWins_or :: "value \<Rightarrow> value \<Rightarrow> value" where
  "LastSeenWins_or self other = other"

definition LastSeenWins_ror :: "value \<Rightarrow> value \<Rightarrow> value" where
  "LastSeenWins_ror self other = self"

text \<open>
  \<^verbatim>\<open>a.__or__(b)\<close> and \<^verbatim>\<open>b.__ror__(a)\<close>; \<open>None\<close> stands for \<^verbatim>\<open>NotImplemented\<close> and for a
  class without the method. \<^verbatim>\<open>Wrapper\<close> defines neither. Of the plain values only
  integers have \<^verbatim>\<open>__or__\<close> (the supported interpreters are Python 3.7 and 3.8).
\<close>

fun or_method :: "value \<Rightarrow> value \<Rightarrow> exc + value option" where
  "or_method (Wrap LastSeenWins v) b = Inr (Some (LastSeenWins_or (Wrap LastSeenWins v) b))"
| "or_method (Wrap CopyUpdate v) b = CopyUpdate_or v b"
| "or_method (Wrap Wrapper v) b = Inr None"
| "or_method (Plain (Atom (AInt x))) (Plain (Atom (AInt y))) =
     Inr (Some (Plain (Atom (AInt (or x y)))))"
| "or_method (Plain p) b = Inr None"

fun ror_method :: "value \<Rightarrow> value \<Rightarrow> value option" where
  "ror_method (Wrap LastSeenWins v) a = Some (LastSeenWins_ror (Wrap LastSeenWins v) a)"
| "ror_method b a = None"

text \<open>
  \<^verbatim>\<open>operator.or_(a, b)\<close>: the reflected method is tried when the first returns
  \<^verbatim>\<open>NotImplemented\<close> and the operands are of different types.
\<close>

definition py_or :: "value \<Rightarrow> value \<Rightarrow> exc + value" where
  "py_or a b =
     (case or_method a b of
        Inl e \<Rightarrow> Inl e
      | Inr (Some r) \<Rightarrow> Inr r
      | Inr None \<Rightarrow>
          if type_of a = type_of b then Inl TypeError
          else (case ror_method b a of Some r \<Rightarrow> Inr r | None \<Rightarrow> Inl TypeError))"

text \<open>\<^verbatim>\<open>functools.reduce(operator.or_, ...)\<close> on a sequence with first element \<open>acc\<close>.\<close>

fun reduce_or :: "value \<Rightarrow> value list \<Rightarrow> exc + value" where
  "reduce_or acc [] = Inr acc"
| "reduce_or acc (v # vs) =
     (case py_or acc v of Inl e \<Rightarrow> Inl e | Inr acc' \<Rightarrow> reduce_or acc' vs)"

section \<open>The condition store (\<^verbatim>\<open>Options\<close>)\<close>

text \<open>
  A Python dictionary is an association list in insertion order with distinct
  keys. An \<^verbatim>\<open>Options\<close> object has one attribute, \<^verbatim>\<open>_types\<close>, a
  \<^verbatim>\<open>defaultdict(dict)\<close> from types to dictionaries from conditions to values, and is
  identified with it.
\<close>

type_synonym bucket = "(cond \<times> value) list"
type_synonym Options = "(ty \<times> bucket) list"

fun dict_set :: "('k \<times> 'v) list \<Rightarrow> 'k \<Rightarrow> 'v \<Rightarrow> ('k \<times> 'v) list" where
  "dict_set [] k v = [(k, v)]"
| "dict_set ((k', v') # kvs) k v =
     (if k' = k then (k', v) # kvs else (k', v') # dict_set kvs k v)"

fun dict_del :: "('k \<times> 'v) list \<Rightarrow> 'k \<Rightarrow> exc + ('k \<times> 'v) list" where
  "dict_del [] k = Inl KeyError"
| "dict_del ((k', v') # kvs) k =
     (if k' = k then Inr kvs
      else (case dict_del kvs k of Inl e \<Rightarrow> Inl e | Inr kvs' \<Rightarrow> Inr ((k', v') # kvs')))"

text \<open>\<^verbatim>\<open>self._types[tp]\<close>: a missing key is inserted with an empty dictionary.\<close>

definition types_get :: "Options \<Rightarrow> ty \<Rightarrow> bucket \<times> Options" where
  "types_get st tp =
     (case map_of st tp of Some b \<Rightarrow> (b, st) | None \<Rightarrow> ([], st @ [(tp, [])]))"

definition Options_getitem :: "Options \<Rightarrow> cond \<Rightarrow> (exc + value) \<times> Options" where
  "Options_getitem st condition =
     (let (b, st') = types_get st (cond_type condition) in
      case map_of b condition of None \<Rightarrow> (Inl KeyError, st') | Some v \<Rightarrow> (Inr v, st'))"

definition Options_setitem :: "Options \<Rightarrow> cond \<Rightarrow> value \<Rightarrow> Options" where
  "Options_setitem st condition v =
     (let (b, st') = types_get st (cond_type condition) in
      dict_set st' (cond_type condition) (dict_set b condition v))"

definition Options_delitem :: "Options \<Rightarrow> cond \<Rightarrow> (exc + unit) \<times> Options" where
  "Options_delitem st condition =
     (let (b, st') = types_get st (cond_type condition) in
      case dict_del b condition of
        Inl e \<Rightarrow> (Inl e, st')
      | Inr b' \<Rightarrow> (Inr (), dict_set st' (cond_type condition) b'))"

definition Options_init :: "(cond \<times> value) list \<Rightarrow> Options" where
  "Options_init other = foldl (\<lambda>st (condition, v). Options_setitem st condition v) [] other"

definition Options_iter :: "Options \<Rightarrow> cond list" where
  "Options_iter st = concat (map (\<lambda>(tp, b). map fst b) st)"

definition Options_len :: "Options \<Rightarrow> nat" where
  "Options_len st = sum_list (map (\<lambda>(tp, b). length b) st)"

text \<open>The entries of all the dictionaries, as \<^verbatim>\<open>items()\<close> lists them.\<close>

definition Options_items :: "Options \<Rightarrow> (cond \<times> value) list" where
  "Options_items st = concat (map snd st)"

subsection \<open>\<^verbatim>\<open>Options.match\<close>\<close>

text \<open>The comprehension \<^verbatim>\<open>[(cond, val) for ... if cond.match(obj)]\<close>; it stops at
  the first \<^verbatim>\<open>match\<close> that raises.\<close>

fun filter_matching :: "namespace \<Rightarrow> bucket \<Rightarrow> value \<Rightarrow> exc + bucket" where
  "filter_matching ns [] obj = Inr []"
| "filter_matching ns ((c, v) # rest) obj =
     (case cond_match ns c obj of
        Inl e \<Rightarrow> Inl e
      | Inr b \<Rightarrow>
          (case filter_matching ns rest obj of
             Inl e \<Rightarrow> Inl e
           | Inr xs \<Rightarrow> Inr (if b then (c, v) # xs else xs)))"

text \<open>
  Sorting by \<^verbatim>\<open>key=operator.itemgetter(0)\<close>. Python's sort is stable and compares
  with \<^verbatim>\<open><\<close> only; it is modelled by the insertion sort that moves each entry to
  the left past the entries it is less than. The sorted prefix is kept in
  reverse.
\<close>

fun insert_entry :: "cond \<times> value \<Rightarrow> bucket \<Rightarrow> exc + bucket" where
  "insert_entry x [] = Inr [x]"
| "insert_entry x (y # ys) =
     (case py_lt (fst x) (fst y) of
        Inl e \<Rightarrow> Inl e
      | Inr lt \<Rightarrow>
          if lt then (case insert_entry x ys of Inl e \<Rightarrow> Inl e | Inr zs \<Rightarrow> Inr (y # zs))
          else Inr (x # y # ys))"

fun sort_into :: "bucket \<Rightarrow> bucket \<Rightarrow> exc + bucket" where
  "sort_into done [] = Inr (rev done)"
| "sort_into done (x # xs) =
     (case insert_entry x done of Inl e \<Rightarrow> Inl e | Inr done' \<Rightarrow> sort_into done' xs)"

definition sorted_by_cond :: "bucket \<Rightarrow> exc + bucket" where
  "sorted_by_cond xs = sort_into [] xs"

text \<open>The loop over \<^verbatim>\<open>reversed(type.mro(type(obj)))\<close>, with the store threaded
  through.\<close>

fun collect ::
  "namespace \<Rightarrow> ty list \<Rightarrow> value \<Rightarrow> bool \<Rightarrow> Options \<Rightarrow> bucket \<Rightarrow>
     (exc + bucket) \<times> Options" where
  "collect ns [] obj typewise st options = (Inr options, st)"
| "collect ns (tp # tps) obj typewise st options =
     (let (b, st') = types_get st tp in
      case filter_matching ns b obj of
        Inl e \<Rightarrow> (Inl e, st')
      | Inr tp_options \<Rightarrow>
          (case (if typewise then sorted_by_cond tp_options else Inr tp_options) of
             Inl e \<Rightarrow> (Inl e, st')
           | Inr tp_sorted \<Rightarrow> collect ns tps obj typewise st' (options @ tp_sorted)))"

definition Options_match ::
  "namespace \<Rightarrow> Options \<Rightarrow> value \<Rightarrow> bool \<Rightarrow> (exc + value) \<times> Options" where
  "Options_match ns st obj typewise =
     (case collect ns (rev (mro (type_of obj))) obj typewise st [] of
        (Inl e, st') \<Rightarrow> (Inl e, st')
      | (Inr options, st') \<Rightarrow>
          (case (if \<not> typewise then sorted_by_cond options else Inr options) of
             Inl e \<Rightarrow> (Inl e, st')
           | Inr options' \<Rightarrow>
               (case map snd options' of
                  [] \<Rightarrow> (Inl (NoMatchError obj), st')
                | v # vs \<Rightarrow> (reduce_or v vs, st'))))"

section \<open>The facade (\<^verbatim>\<open>Spec\<close>) and the wrapper registry\<close>

text \<open>A pattern is a type, a \<^verbatim>\<open>Match\<close> object (which holds \<^verbatim>\<open>_type\<close>) or a condition.
  A \<^verbatim>\<open>Spec\<close> has one attribute, \<^verbatim>\<open>options\<close>, and is identified with it.\<close>

datatype pattern = PatType ty | PatMatch ty | PatCond cond

type_synonym Spec = Options

fun make_condition_from_pattern :: "pattern \<Rightarrow> cond" where
  "make_condition_from_pattern (PatType t) = IsInstance t"
| "make_condition_from_pattern (PatMatch t) = IsInstance t"
| "make_condition_from_pattern (PatCond c) = c"

fun unwrap :: "value \<Rightarrow> value" where
  "unwrap (Wrap k v) = v"
| "unwrap (Plain p) = Plain p"

definition Spec_match ::
  "namespace \<Rightarrow> Spec \<Rightarrow> value \<Rightarrow> bool \<Rightarrow> (exc + value) \<times> Spec" where
  "Spec_match ns sp obj typewise =
     (case Options_match ns sp obj typewise of
        (Inl e, sp') \<Rightarrow> (Inl e, sp')
      | (Inr v, sp') \<Rightarrow> (Inr (unwrap v), sp'))"

text \<open>Calling \<^verbatim>\<open>w_type(value)\<close>: the three classes construct a wrapper, the lambda
  returns its argument, nothing else is callable.\<close>

fun py_call :: "value \<Rightarrow> value \<Rightarrow> exc + value" where
  "py_call (Plain (PCallable ClsWrapper)) x = Inr (Wrap Wrapper x)"
| "py_call (Plain (PCallable ClsCopyUpdate)) x = Inr (Wrap CopyUpdate x)"
| "py_call (Plain (PCallable ClsLastSeenWins)) x = Inr (Wrap LastSeenWins x)"
| "py_call (Plain (PCallable LambdaIdentity)) x = Inr x"
| "py_call f x = Inl TypeError"

text \<open>The module-level registry, as \<^verbatim>\<open>spec.py\<close> initialises it (the entry for
  \<^verbatim>\<open>set\<close> included, although the universe has no sets).\<close>

definition WRAPPER_TYPES :: Spec where
  "WRAPPER_TYPES = Options_init
     [(IsInstance object_t, Wrap LastSeenWins (Plain (PCallable ClsLastSeenWins))),
      (IsInstance dict_t, Wrap LastSeenWins (Plain (PCallable ClsCopyUpdate))),
      (IsInstance set_t, Wrap LastSeenWins (Plain (PCallable ClsCopyUpdate))),
      (IsInstance Wrapper_t, Wrap LastSeenWins (Plain (PCallable LambdaIdentity)))]"

text \<open>
  \<^verbatim>\<open>Spec.add_pattern\<close>. The registry is process-wide state, so it is passed in and
  returned: the result is the outcome, the specification and the registry.
\<close>

definition add_pattern ::
  "namespace \<Rightarrow> Spec \<Rightarrow> Spec \<Rightarrow> pattern \<Rightarrow> value \<Rightarrow> (exc + unit) \<times> Spec \<times> Spec" where
  "add_pattern ns sp registry pattern v =
     (case Spec_match ns registry v False of
        (Inl e, registry') \<Rightarrow> (Inl e, sp, registry')
      | (Inr w_type, registry') \<Rightarrow>
          (case py_call w_type v of
             Inl e \<Rightarrow> (Inl e, sp, registry')
           | Inr w \<Rightarrow>
               (Inr (), Options_setitem sp (make_condition_from_pattern pattern) w, registry')))"

fun from_patterns ::
  "namespace \<Rightarrow> Spec \<Rightarrow> Spec \<Rightarrow> (pattern \<times> value) list \<Rightarrow> (exc + unit) \<times> Spec \<times> Spec" where
  "from_patterns ns sp registry [] = (Inr (), sp, registry)"
| "from_patterns ns sp registry ((pattern, v) # rest) =
     (case add_pattern ns sp registry pattern v of
        (Inl e, sp', registry') \<Rightarrow> (Inl e, sp', registry')
      | (Inr u, sp', registry') \<Rightarrow> from_patterns ns sp' registry' rest)"

section \<open>The store as \<^verbatim>\<open>Options.match\<close> reads it\<close>

text \<open>
  Views for stating properties, none of them part of the program: the
  dictionary found under a type (empty when there is none); the entries of that
  dictionary that the object satisfies; the result of the loop of
  \<^verbatim>\<open>Options.match\<close> expressed without the store being threaded through; the
  conditions that \<^verbatim>\<open>Options.match\<close> consults for an object, in the order of the
  loop; the list \<^verbatim>\<open>options\<close> as \<^verbatim>\<open>Options.match\<close> has it when it reaches the fold
  (the result of its loop, sorted unless \<^verbatim>\<open>typewise\<close>); and the relation that one
  entry comes before another in a sequence.
\<close>

definition bucket_of :: "Options \<Rightarrow> ty \<Rightarrow> bucket" where
  "bucket_of st tp = (case map_of st tp of Some b \<Rightarrow> b | None \<Rightarrow> [])"

definition satisfied :: "namespace \<Rightarrow> Options \<Rightarrow> value \<Rightarrow> ty \<Rightarrow> bucket" where
  "satisfied ns st obj tp = filter (\<lambda>(c, v). cond_match ns c obj = Inr True) (bucket_of st tp)"

fun levels :: "namespace \<Rightarrow> Options \<Rightarrow> value \<Rightarrow> bool \<Rightarrow> ty list \<Rightarrow> exc + bucket" where
  "levels ns st obj typewise [] = Inr []"
| "levels ns st obj typewise (tp # tps) =
     (case filter_matching ns (bucket_of st tp) obj of
        Inl e \<Rightarrow> Inl e
      | Inr tp_options \<Rightarrow>
          (case (if typewise then sorted_by_cond tp_options else Inr tp_options) of
             Inl e \<Rightarrow> Inl e
           | Inr tp_sorted \<Rightarrow>
               (case levels ns st obj typewise tps of
                  Inl e \<Rightarrow> Inl e
                | Inr rest \<Rightarrow> Inr (tp_sorted @ rest))))"

definition consulted :: "Options \<Rightarrow> value \<Rightarrow> cond list" where
  "consulted st obj = concat (map (\<lambda>tp. map fst (bucket_of st tp)) (rev (mro (type_of obj))))"

definition combination_order ::
  "namespace \<Rightarrow> Options \<Rightarrow> value \<Rightarrow> bool \<Rightarrow> exc + bucket" where
  "combination_order ns st obj typewise =
     (case fst (collect ns (rev (mro (type_of obj))) obj typewise st []) of
        Inl e \<Rightarrow> Inl e
      | Inr options \<Rightarrow> if \<not> typewise then sorted_by_cond options else Inr options)"

fun before_in :: "'a \<Rightarrow> 'a \<Rightarrow> 'a list \<Rightarrow> bool" where
  "before_in x y [] = False"
| "before_in x y (z # zs) = ((z = x \<and> y \<in> set zs) \<or> before_in x y zs)"

section \<open>Properties of the ordering\<close>

lemmas builtin_types =
  object_t_def int_t_def str_t_def list_t_def dict_t_def set_t_def NoneType_t_def
  type_t_def function_t_def Wrapper_t_def CopyUpdate_t_def LastSeenWins_t_def

lemma ancestor_smaller: "a \<in> set anc \<Longrightarrow> size a < size (Class n anc)"
  by (induction anc) auto

lemma mro_cases: "t \<in> set (mro u) \<Longrightarrow> t = u \<or> size t < size u"
  by (cases u) (auto dest: ancestor_smaller)

lemma mro_self: "t \<in> set (mro t)"
  by (cases t) simp

lemma mro_antisym:
  assumes "t \<in> set (mro u)" and "u \<in> set (mro t)"
  shows "t = u"
  using mro_cases [OF assms(1)] mro_cases [OF assms(2)] by auto

lemma lt_type_comparison:
  "\<not> is_Comparison a \<Longrightarrow> is_Comparison b \<Longrightarrow> py_lt a b = Inr True"
  by (cases a; cases b) (simp_all add: py_lt_def)

lemma lt_comparison_type:
  "is_Comparison a \<Longrightarrow> \<not> is_Comparison b \<Longrightarrow> py_lt a b = Inr False"
  by (cases a; cases b) (simp_all add: py_lt_def)

text \<open>
  C1. Every \<^verbatim>\<open>IsInstance\<close> condition is less than every \<^verbatim>\<open>Comparison\<close> condition
  of any class, bound type, identifier, operator and reference value, and no
  \<^verbatim>\<open>Comparison\<close> condition is less than an \<^verbatim>\<open>IsInstance\<close> condition:
  \<^verbatim>\<open>D < C\<close> evaluates to true and \<^verbatim>\<open>C < D\<close> to false.
\<close>

theorem C1_isinstance_below_comparison:
  "py_lt (IsInstance t) (Comparison k u i op r) = Inr True \<and>
   py_lt (Comparison k u i op r) (IsInstance t) = Inr False"
  by (simp add: py_lt_def)

text \<open>
  C5, evaluated on the code. \<^verbatim>\<open>IsInstance(T) < IsInstance(T)\<close> is never false: it is
  true for every class whose \<^verbatim>\<open>mro()\<close> can be called, \<^verbatim>\<open>object\<close> among them, because
  \<^verbatim>\<open>T.mro()\<close> starts with \<open>T\<close> itself, and it raises \<^verbatim>\<open>TypeError\<close> for \<^verbatim>\<open>type\<close> and the
  metaclasses. The ordering is not irreflexive, and the pair \<open>(A, A)\<close> has both
  \<^verbatim>\<open>A < B\<close> and \<^verbatim>\<open>B < A\<close>.
\<close>

theorem C5_isinstance_lt_reflexive:
  "py_lt (IsInstance t) (IsInstance t) =
     (if type_t \<in> set (mro t) then Inl TypeError else Inr True) \<and>
   py_lt (IsInstance object_t) (IsInstance object_t) = Inr True"
  by (simp add: py_lt_def mro_method_def mro_self builtin_types)

text \<open>On two different bound types the ordering is antisymmetric, related or not.\<close>

lemma isinstance_lt_antisym:
  assumes "ta \<noteq> tb"
  shows "\<not> (py_lt (IsInstance ta) (IsInstance tb) = Inr True \<and>
            py_lt (IsInstance tb) (IsInstance ta) = Inr True)"
  using assms mro_antisym by (auto simp: py_lt_def mro_method_def split: if_splits)

lemma cond_eq_iff: "cond_eq a b \<longleftrightarrow> a = b"
  by (cases a; cases b) auto

text \<open>Where neither bound type is \<^verbatim>\<open>type\<close> or a metaclass, a strict ancestor is less
  than its descendant and the descendant is not less than the ancestor.\<close>

lemma ancestor_less:
  assumes "ta \<in> set (mro tb)" and "ta \<noteq> tb"
    and "type_t \<notin> set (mro ta)" and "type_t \<notin> set (mro tb)"
  shows "py_lt (IsInstance ta) (IsInstance tb) = Inr True \<and>
         py_lt (IsInstance tb) (IsInstance ta) = Inr False"
proof -
  have "tb \<notin> set (mro ta)"
    using assms(1,2) mro_antisym by blast
  with assms show ?thesis
    by (simp add: py_lt_def mro_method_def)
qed

text \<open>
  C6, evaluated on the code. \<^verbatim>\<open>object\<close> is a strict ancestor of \<^verbatim>\<open>type\<close>, and
  \<^verbatim>\<open>IsInstance(object) < IsInstance(type)\<close> raises \<^verbatim>\<open>TypeError\<close>: the method evaluates
  \<^verbatim>\<open>type.mro()\<close>, the unbound method without its argument.
\<close>

theorem C6_ancestor_of_type_raises:
  "object_t \<in> set (mro type_t) \<and> object_t \<noteq> type_t \<and>
   py_lt (IsInstance object_t) (IsInstance type_t) = Inl TypeError"
  by (simp add: py_lt_def mro_method_def builtin_types)

section \<open>Sorting, filtering and the loop\<close>

lemma mro_method_exc: "mro_method t = Inl e \<Longrightarrow> e = TypeError"
  by (simp add: mro_method_def split: if_splits)

lemma cond_lt_exc: "cond_lt a b = Inl e \<Longrightarrow> e = TypeError"
  by (cases a) (auto split: if_splits sum.splits dest: mro_method_exc)

lemma cond_gt_exc: "cond_gt a b = Inl e \<Longrightarrow> e = TypeError"
  using cond_lt_exc [of a b] by (cases "cond_lt a b") (auto split: option.splits)

lemma dispatch_exc:
  assumes "\<And>e. g = Inl e \<Longrightarrow> e = TypeError"
    and "\<And>e. l = Inl e \<Longrightarrow> e = TypeError"
    and "\<And>e. g' = Inl e \<Longrightarrow> e = TypeError"
    and "(case g of
            Inl e \<Rightarrow> Inl e
          | Inr (Some r) \<Rightarrow> Inr r
          | Inr None \<Rightarrow>
              (case l of
                 Inl e \<Rightarrow> Inl e
               | Inr (Some r) \<Rightarrow> Inr r
               | Inr None \<Rightarrow>
                   (case g' of
                      Inl e \<Rightarrow> Inl e
                    | Inr (Some r) \<Rightarrow> Inr r
                    | Inr None \<Rightarrow> Inl TypeError))) = Inl (e::exc)"
  shows "e = TypeError"
proof (cases g)
  case (Inl x)
  with assms(1,4) show ?thesis by simp
next
  case (Inr go)
  show ?thesis
  proof (cases go)
    case (Some r)
    with Inr assms(4) show ?thesis by simp
  next
    case None
    note gn = this
    show ?thesis
    proof (cases l)
      case (Inl x)
      with Inr gn assms(2,4) show ?thesis by simp
    next
      case (Inr lo)
      note lr = this
      show ?thesis
      proof (cases lo)
        case (Some r)
        with \<open>g = Inr go\<close> gn lr assms(4) show ?thesis by simp
      next
        case None
        note ln = this
        show ?thesis
        proof (cases g')
          case (Inl x)
          with \<open>g = Inr go\<close> gn lr ln assms(3,4) show ?thesis by simp
        next
          case (Inr go')
          with \<open>g = Inr go\<close> gn lr ln assms(4) show ?thesis by (cases go') simp_all
        qed
      qed
    qed
  qed
qed

lemma py_lt_exc: "py_lt a b = Inl e \<Longrightarrow> e = TypeError"
proof -
  assume a: "py_lt a b = Inl e"
  have 1: "(if proper_subclass b a then cond_gt b a else Inr None) = Inl e' \<Longrightarrow> e' = TypeError"
    for e'
    using cond_gt_exc [of b a e'] by (cases "proper_subclass b a") simp_all
  have 2: "cond_lt a b = Inl e' \<Longrightarrow> e' = TypeError" for e'
    by (rule cond_lt_exc)
  have 3: "(if proper_subclass b a then Inr None else cond_gt b a) = Inl e' \<Longrightarrow> e' = TypeError"
    for e'
    using cond_gt_exc [of b a e'] by (cases "proper_subclass b a") simp_all
  note d = a [unfolded py_lt_def Let_def]
  show ?thesis
    apply (rule dispatch_exc [OF _ _ _ d])
      apply (erule 1)
     apply (erule 2)
    apply (erule 3)
    done
qed

text \<open>The part of a sorted sequence that does not depend on how \<^verbatim>\<open>IsInstance\<close>
  conditions compare with each other: what the sequence holds, and that no
  \<^verbatim>\<open>Comparison\<close> entry comes before an \<^verbatim>\<open>IsInstance\<close> entry.\<close>

lemma insert_entry_Inr:
  "insert_entry x ys = Inr zs \<Longrightarrow> set zs = insert x (set ys) \<and> zs \<noteq> []"
proof (induction ys arbitrary: zs)
  case Nil
  then show ?case by auto
next
  case (Cons y ys)
  show ?case
  proof (cases "py_lt (fst x) (fst y)")
    case (Inl e)
    with Cons.prems show ?thesis by simp
  next
    case (Inr lt)
    show ?thesis
    proof (cases lt)
      case True
      with Inr Cons.prems obtain zs' where z: "insert_entry x ys = Inr zs'" "zs = y # zs'"
        by (cases "insert_entry x ys") auto
      from Cons.IH [OF z(1)] z(2) show ?thesis by auto
    next
      case False
      with Inr Cons.prems show ?thesis by auto
    qed
  qed
qed

lemma insert_entry_Inl: "insert_entry x ys = Inl e \<Longrightarrow> e = TypeError"
proof (induction ys)
  case Nil
  then show ?case by simp
next
  case (Cons y ys)
  show ?case
  proof (cases "py_lt (fst x) (fst y)")
    case (Inl e')
    with Cons.prems py_lt_exc [of "fst x" "fst y" e'] show ?thesis by simp
  next
    case (Inr lt)
    with Cons show ?thesis
      by (cases lt; cases "insert_entry x ys") auto
  qed
qed

lemma insert_entry_order:
  assumes "insert_entry x ys = Inr zs"
    and "sorted_wrt (\<lambda>a b. is_Comparison (fst b) \<longrightarrow> is_Comparison (fst a)) ys"
  shows "sorted_wrt (\<lambda>a b. is_Comparison (fst b) \<longrightarrow> is_Comparison (fst a)) zs"
  using assms
proof (induction ys arbitrary: zs)
  case Nil
  then have "zs = [x]" by simp
  then show ?case by simp
next
  case (Cons y ys)
  have p1: "\<forall>w \<in> set ys. is_Comparison (fst w) \<longrightarrow> is_Comparison (fst y)"
    and p2: "sorted_wrt (\<lambda>a b. is_Comparison (fst b) \<longrightarrow> is_Comparison (fst a)) ys"
    using Cons.prems(2) by simp_all
  show ?case
  proof (cases "py_lt (fst x) (fst y)")
    case (Inl e)
    with Cons.prems(1) show ?thesis by simp
  next
    case (Inr lt)
    show ?thesis
    proof (cases lt)
      case True
      with Inr Cons.prems(1) obtain zs' where z: "insert_entry x ys = Inr zs'" "zs = y # zs'"
        by (cases "insert_entry x ys") simp_all
      have s: "set zs' = insert x (set ys)" using insert_entry_Inr [OF z(1)] by simp
      have ih: "sorted_wrt (\<lambda>a b. is_Comparison (fst b) \<longrightarrow> is_Comparison (fst a)) zs'"
        by (rule Cons.IH [OF z(1) p2])
      have xy: "is_Comparison (fst x) \<longrightarrow> is_Comparison (fst y)"
      proof
        assume cx: "is_Comparison (fst x)"
        show "is_Comparison (fst y)"
        proof (rule ccontr)
          assume "\<not> is_Comparison (fst y)"
          from lt_comparison_type [OF cx this] Inr True show False by simp
        qed
      qed
      have b: "\<forall>w \<in> set zs'. is_Comparison (fst w) \<longrightarrow> is_Comparison (fst y)"
        unfolding s using xy p1 by blast
      show ?thesis
        unfolding z(2) sorted_wrt.simps using b ih by blast
    next
      case False
      with Inr Cons.prems(1) have z: "zs = x # y # ys" by simp
      have "\<forall>w \<in> set (y # ys). is_Comparison (fst w) \<longrightarrow> is_Comparison (fst x)"
      proof (intro ballI impI)
        fix w
        assume w: "w \<in> set (y # ys)" and cw: "is_Comparison (fst w)"
        show "is_Comparison (fst x)"
        proof (rule ccontr)
          assume nx: "\<not> is_Comparison (fst x)"
          have "is_Comparison (fst y)"
          proof (cases "w = y")
            case True
            with cw show ?thesis by simp
          next
            case False
            with w have "w \<in> set ys" by simp
            with cw p1 show ?thesis by blast
          qed
          from lt_type_comparison [OF nx this] Inr False show False by simp
        qed
      qed
      then have b: "\<forall>w \<in> set (y # ys). is_Comparison (fst w) \<longrightarrow> is_Comparison (fst x)" .
      show ?thesis
        unfolding z sorted_wrt.simps(2) [of _ x] using b Cons.prems(2) by blast
    qed
  qed
qed

lemma sort_into_Inr:
  "sort_into acc xs = Inr zs \<Longrightarrow>
     set zs = set acc \<union> set xs \<and> (zs = [] \<longleftrightarrow> acc = [] \<and> xs = [])"
proof (induction xs arbitrary: acc)
  case Nil
  then show ?case by auto
next
  case (Cons x xs)
  from Cons.prems obtain acc' where a: "insert_entry x acc = Inr acc'" "sort_into acc' xs = Inr zs"
    by (cases "insert_entry x acc") auto
  from insert_entry_Inr [OF a(1)] Cons.IH [OF a(2)] show ?case by auto
qed

lemma sort_into_Inl: "sort_into acc xs = Inl e \<Longrightarrow> e = TypeError"
proof (induction xs arbitrary: acc)
  case Nil
  then show ?case by simp
next
  case (Cons x xs)
  show ?case
  proof (cases "insert_entry x acc")
    case (Inl e')
    with Cons.prems insert_entry_Inl [of x acc e'] show ?thesis by simp
  next
    case (Inr acc')
    with Cons show ?thesis by simp
  qed
qed

lemma sort_into_order:
  assumes "sort_into acc xs = Inr zs"
    and "sorted_wrt (\<lambda>a b. is_Comparison (fst b) \<longrightarrow> is_Comparison (fst a)) acc"
  shows "sorted_wrt (\<lambda>a b. is_Comparison (fst a) \<longrightarrow> is_Comparison (fst b)) zs"
  using assms
proof (induction xs arbitrary: acc)
  case Nil
  then have "zs = rev acc" by simp
  with Nil.prems(2) show ?case by (simp add: sorted_wrt_rev)
next
  case (Cons x xs)
  from Cons.prems(1) obtain acc' where a: "insert_entry x acc = Inr acc'" "sort_into acc' xs = Inr zs"
    by (cases "insert_entry x acc") auto
  from Cons.IH [OF a(2) insert_entry_order [OF a(1) Cons.prems(2)]] show ?case .
qed

lemma sorted_by_cond_Nil: "sorted_by_cond [] = Inr []"
  by (simp add: sorted_by_cond_def)

lemma sorted_by_cond_single: "sorted_by_cond [x] = Inr [x]"
  by (simp add: sorted_by_cond_def)

lemma sorted_by_cond_Inr:
  assumes "sorted_by_cond xs = Inr zs"
  shows "set zs = set xs" and "zs = [] \<longleftrightarrow> xs = []"
    and "sorted_wrt (\<lambda>a b. is_Comparison (fst a) \<longrightarrow> is_Comparison (fst b)) zs"
  using assms sort_into_Inr [of "[]" xs zs] sort_into_order [of "[]" xs zs]
  by (simp_all add: sorted_by_cond_def)

lemma sorted_by_cond_Inl: "sorted_by_cond xs = Inl e \<Longrightarrow> e = TypeError"
  using sort_into_Inl [of "[]" xs e] by (simp add: sorted_by_cond_def)

lemma before_in_iff: "before_in x y xs \<longleftrightarrow> (\<exists>as bs cs. xs = as @ x # bs @ y # cs)"
proof (induction xs)
  case Nil
  show ?case by simp
next
  case (Cons z zs)
  show ?case
  proof
    assume "before_in x y (z # zs)"
    then consider "z = x" "y \<in> set zs" | "before_in x y zs" by auto
    then show "\<exists>as bs cs. z # zs = as @ x # bs @ y # cs"
    proof cases
      case 1
      from 1(2) obtain bs cs where "zs = bs @ y # cs" by (meson split_list)
      with 1(1) have "z # zs = [] @ x # bs @ y # cs" by simp
      then show ?thesis by blast
    next
      case 2
      with Cons.IH obtain as bs cs where "zs = as @ x # bs @ y # cs" by blast
      then have "z # zs = (z # as) @ x # bs @ y # cs" by simp
      then show ?thesis by blast
    qed
  next
    assume "\<exists>as bs cs. z # zs = as @ x # bs @ y # cs"
    then obtain as bs cs where e: "z # zs = as @ x # bs @ y # cs" by blast
    show "before_in x y (z # zs)"
    proof (cases as)
      case Nil
      with e have "z = x" "zs = bs @ y # cs" by simp_all
      then show ?thesis by simp
    next
      case (Cons a as')
      with e have "zs = as' @ x # bs @ y # cs" by simp
      with Cons.IH have "before_in x y zs" by blast
      then show ?thesis by simp
    qed
  qed
qed

lemma before_in_sorted:
  assumes s: "sorted_wrt (\<lambda>a b. is_Comparison (fst a) \<longrightarrow> is_Comparison (fst b)) zs"
    and x: "x \<in> set zs" "\<not> is_Comparison (fst x)"
    and y: "y \<in> set zs" "is_Comparison (fst y)"
  shows "before_in x y zs"
proof -
  from y(1) obtain as cs where zs: "zs = as @ y # cs"
    using split_list by fastforce
  have after: "\<forall>c \<in> set cs. is_Comparison (fst y) \<longrightarrow> is_Comparison (fst c)"
    using s unfolding zs sorted_wrt_append sorted_wrt.simps by blast
  have "x \<noteq> y" using x(2) y(2) by blast
  have "x \<notin> set cs"
    using after x(2) y(2) by blast
  moreover have "x \<in> set as \<or> x = y \<or> x \<in> set cs"
    using x(1) unfolding zs set_append list.set by blast
  ultimately have "x \<in> set as"
    using \<open>x \<noteq> y\<close> by blast
  then obtain as1 as2 where "as = as1 @ x # as2"
    using split_list by fastforce
  with zs have "zs = as1 @ x # as2 @ y # cs" by simp
  then show ?thesis unfolding before_in_iff by blast
qed

lemma filter_matching_Inr:
  "filter_matching ns b obj = Inr xs \<Longrightarrow>
     xs = filter (\<lambda>(c, v). cond_match ns c obj = Inr True) b \<and>
     (\<forall>(c, v) \<in> set b. \<exists>r. cond_match ns c obj = Inr r)"
  by (induction b arbitrary: xs) (auto split: sum.splits if_splits)

lemma filter_matching_Inl:
  "filter_matching ns b obj = Inl e \<Longrightarrow> \<exists>(c, v) \<in> set b. cond_match ns c obj = Inl e"
  by (induction b) (auto split: sum.splits if_splits)

lemma filter_matching_all:
  "(\<forall>(c, v) \<in> set b. \<exists>r. cond_match ns c obj = Inr r) \<Longrightarrow>
     filter_matching ns b obj = Inr (filter (\<lambda>(c, v). cond_match ns c obj = Inr True) b)"
  by (induction b) (auto split: sum.splits if_splits)

text \<open>The comprehension raises the error of the first condition that raises.\<close>

lemma filter_matching_first:
  assumes "map fst b = pre @ c # post"
    and "\<forall>c' \<in> set pre. \<exists>r. cond_match ns c' obj = Inr r"
    and "cond_match ns c obj = Inl e"
  shows "filter_matching ns b obj = Inl e"
  using assms
proof (induction b arbitrary: pre)
  case Nil
  then show ?case by simp
next
  case (Cons p b)
  obtain c0 v0 where p: "p = (c0, v0)" by (cases p)
  show ?case
  proof (cases pre)
    case Nil
    with Cons.prems(1) p have "c0 = c" by simp
    with Cons.prems(3) p show ?thesis by simp
  next
    case (Cons c1 pre')
    with Cons.prems(1) p have eq: "c0 = c1" "map fst b = pre' @ c # post" by simp_all
    from Cons.prems(2) Cons eq(1) obtain r where r: "cond_match ns c0 obj = Inr r" by auto
    have "\<forall>c' \<in> set pre'. \<exists>r. cond_match ns c' obj = Inr r"
      using Cons.prems(2) Cons by simp
    from Cons.IH [OF eq(2) this Cons.prems(3)] p r show ?thesis by simp
  qed
qed

lemma types_get_fst: "fst (types_get st tp) = bucket_of st tp"
  by (simp add: types_get_def bucket_of_def split: option.splits)

lemma types_get_bucket_of: "bucket_of (snd (types_get st tp)) tp' = bucket_of st tp'"
  by (auto simp: types_get_def bucket_of_def map_of_append split: option.splits if_splits)

lemma levels_cong:
  "(\<forall>tp \<in> set tps. bucket_of st tp = bucket_of st' tp) \<Longrightarrow>
     levels ns st obj tw tps = levels ns st' obj tw tps"
  by (induction tps) (simp_all cong: sum.case_cong)

lemma collect_levels:
  "fst (collect ns tps obj tw st acc) =
     (case levels ns st obj tw tps of Inl e \<Rightarrow> Inl e | Inr xs \<Rightarrow> Inr (acc @ xs))"
proof (induction tps arbitrary: st acc)
  case Nil
  show ?case by simp
next
  case (Cons tp tps)
  obtain b st' where g: "types_get st tp = (b, st')" by (cases "types_get st tp")
  have b: "b = bucket_of st tp" using g types_get_fst [of st tp] by simp
  have st': "\<And>tp'. bucket_of st' tp' = bucket_of st tp'"
    using g types_get_bucket_of [of st tp] by simp
  have lv: "levels ns st' obj tw tps = levels ns st obj tw tps"
    by (rule levels_cong) (simp add: st')
  show ?case
  proof (cases "filter_matching ns (bucket_of st tp) obj")
    case (Inl e)
    with g b show ?thesis by simp
  next
    case (Inr m)
    note fm = this
    show ?thesis
    proof (cases "if tw then sorted_by_cond m else Inr m")
      case (Inl e)
      with g b fm show ?thesis by simp
    next
      case (Inr s)
      show ?thesis
      proof (cases "levels ns st obj tw tps")
        case (Inl e)
        with g b fm Inr lv Cons.IH [of st' "acc @ s"] show ?thesis by simp
      next
        case (Inr rest)
        with g b fm \<open>(if tw then sorted_by_cond m else Inr m) = Inr s\<close> lv
          Cons.IH [of st' "acc @ s"] show ?thesis by simp
      qed
    qed
  qed
qed

section \<open>The result of \<^verbatim>\<open>Options.match\<close>\<close>

text \<open>\<^verbatim>\<open>Options.match\<close> folds the values of the combination sequence, first to last,
  and raises \<^verbatim>\<open>NoMatchError\<close> when the sequence is empty.\<close>

lemma Options_match_levels:
  "fst (Options_match ns st obj tw) =
     (case levels ns st obj tw (rev (mro (type_of obj))) of
        Inl e \<Rightarrow> Inl e
      | Inr options \<Rightarrow>
          (case (if \<not> tw then sorted_by_cond options else Inr options) of
             Inl e \<Rightarrow> Inl e
           | Inr options' \<Rightarrow>
               (case map snd options' of
                  [] \<Rightarrow> Inl (NoMatchError obj)
                | v # vs \<Rightarrow> reduce_or v vs)))"
proof -
  obtain r st' where c: "collect ns (rev (mro (type_of obj))) obj tw st [] = (r, st')"
    by (cases "collect ns (rev (mro (type_of obj))) obj tw st []")
  have "r = (case levels ns st obj tw (rev (mro (type_of obj))) of
               Inl e \<Rightarrow> Inl e | Inr xs \<Rightarrow> Inr ([] @ xs))"
    using collect_levels [of ns "rev (mro (type_of obj))" obj tw st "[]"] c by simp
  then show ?thesis
    using c by (auto simp: Options_match_def split: sum.splits list.splits)
qed

lemma combination_order_levels:
  "combination_order ns st obj tw =
     (case levels ns st obj tw (rev (mro (type_of obj))) of
        Inl e \<Rightarrow> Inl e
      | Inr options \<Rightarrow> if \<not> tw then sorted_by_cond options else Inr options)"
  by (cases "levels ns st obj tw (rev (mro (type_of obj)))")
     (simp_all add: combination_order_def collect_levels)

lemma Options_match_order:
  "fst (Options_match ns st obj tw) =
     (case combination_order ns st obj tw of
        Inl e \<Rightarrow> Inl e
      | Inr options \<Rightarrow>
          (case map snd options of
             [] \<Rightarrow> Inl (NoMatchError obj)
           | v # vs \<Rightarrow> reduce_or v vs))"
proof (cases "levels ns st obj tw (rev (mro (type_of obj)))")
  case (Inl e)
  then show ?thesis by (simp add: Options_match_levels combination_order_levels)
next
  case (Inr xs)
  then show ?thesis
    by (cases tw) (simp_all add: Options_match_levels combination_order_levels)
qed

section \<open>Which errors the combination can raise\<close>

lemma update_pairs_exc: "update_pairs m xs = Inl e \<Longrightarrow> e = ValueError \<or> e = TypeError"
  by (induction m xs rule: update_pairs.induct) auto

lemma dict_update_exc: "dict_update m other = Inl e \<Longrightarrow> e = ValueError \<or> e = TypeError"
  by (induction m other rule: dict_update.induct) (auto dest: update_pairs_exc)

lemma py_copy_exc: "py_copy v = Inl e \<Longrightarrow> e = TypeError \<or> e = AttributeError"
  by (induction v rule: py_copy.induct) (auto split: option.splits)

lemma py_update_exc:
  "py_update new other = Inl e \<Longrightarrow> e = AttributeError \<or> e = ValueError \<or> e = TypeError"
  by (induction new other rule: py_update.induct) (auto split: sum.splits dest: dict_update_exc)

lemma CopyUpdate_or_exc: "CopyUpdate_or p b = Inl e \<Longrightarrow> e = TypeError \<or> e = AttributeError"
  by (auto simp: CopyUpdate_or_def Let_def split: sum.splits if_splits
           dest: py_copy_exc py_update_exc)

lemma or_method_exc: "or_method a b = Inl e \<Longrightarrow> e = TypeError \<or> e = AttributeError"
  by (induction a b rule: or_method.induct) (auto dest: CopyUpdate_or_exc)

lemma py_or_exc: "py_or a b = Inl e \<Longrightarrow> e = TypeError \<or> e = AttributeError"
  by (auto simp: py_or_def split: sum.splits option.splits if_splits dest: or_method_exc)

lemma reduce_or_exc: "reduce_or acc vs = Inl e \<Longrightarrow> e = TypeError \<or> e = AttributeError"
  by (induction vs arbitrary: acc) (auto split: sum.splits dest: py_or_exc)

section \<open>When \<^verbatim>\<open>Options.match\<close> raises\<close>

lemma levels_Inl:
  "levels ns st obj tw tps = Inl e \<Longrightarrow>
     (\<exists>c \<in> set (concat (map (\<lambda>tp. map fst (bucket_of st tp)) tps)). cond_match ns c obj = Inl e) \<or>
     (tw \<and> e = TypeError)"
proof (induction tps)
  case Nil
  then show ?case by simp
next
  case (Cons tp tps)
  let ?A = "set (map fst (bucket_of st tp))"
  let ?B = "set (concat (map (\<lambda>tp. map fst (bucket_of st tp)) tps))"
  have split: "set (concat (map (\<lambda>tp. map fst (bucket_of st tp)) (tp # tps))) = ?A \<union> ?B"
    by simp
  show ?case
  proof (cases "filter_matching ns (bucket_of st tp) obj")
    case (Inl e')
    with Cons.prems have "e' = e" by simp
    with Inl have "filter_matching ns (bucket_of st tp) obj = Inl e" by simp
    from filter_matching_Inl [OF this]
    obtain c v where "(c, v) \<in> set (bucket_of st tp)" "cond_match ns c obj = Inl e" by blast
    then have "c \<in> ?A" "cond_match ns c obj = Inl e" by force+
    then show ?thesis unfolding split by blast
  next
    case (Inr m)
    note fm = this
    show ?thesis
    proof (cases "if tw then sorted_by_cond m else Inr m")
      case (Inl e')
      with Cons.prems fm have e: "e' = e" by simp
      from Inl have tw: tw by (cases tw) simp_all
      with Inl have "sorted_by_cond m = Inl e'" by simp
      from sorted_by_cond_Inl [OF this] e tw show ?thesis by blast
    next
      case (Inr s)
      have "levels ns st obj tw tps = Inl e"
      proof (cases "levels ns st obj tw tps")
        case (Inl e'')
        with Cons.prems fm Inr show ?thesis by simp
      next
        case (Inr rest)
        with Cons.prems fm \<open>(if tw then sorted_by_cond m else Inr m) = Inr s\<close>
        show ?thesis by simp
      qed
      from Cons.IH [OF this] show ?thesis unfolding split by blast
    qed
  qed
qed

lemma levels_Inr:
  "levels ns st obj tw tps = Inr xs \<Longrightarrow>
     (\<forall>c \<in> set (concat (map (\<lambda>tp. map fst (bucket_of st tp)) tps)). \<exists>r. cond_match ns c obj = Inr r) \<and>
     (xs = [] \<longleftrightarrow>
        (\<forall>c \<in> set (concat (map (\<lambda>tp. map fst (bucket_of st tp)) tps)). cond_match ns c obj \<noteq> Inr True))"
proof (induction tps arbitrary: xs)
  case Nil
  then show ?case by simp
next
  case (Cons tp tps)
  from Cons.prems obtain m where m: "filter_matching ns (bucket_of st tp) obj = Inr m"
    by (cases "filter_matching ns (bucket_of st tp) obj") simp_all
  from Cons.prems m obtain s where s0: "(if tw then sorted_by_cond m else Inr m) = Inr s"
    by (cases "if tw then sorted_by_cond m else Inr m") simp_all
  have s: "s = [] \<longleftrightarrow> m = []"
  proof (cases tw)
    case True
    with s0 have "sorted_by_cond m = Inr s" by simp
    from sorted_by_cond_Inr(2) [OF this] show ?thesis .
  next
    case False
    with s0 show ?thesis by simp
  qed
  from Cons.prems m s0 obtain rest where
    rest: "levels ns st obj tw tps = Inr rest" "xs = s @ rest"
    by (cases "levels ns st obj tw tps") simp_all
  let ?A = "set (map fst (bucket_of st tp))"
  let ?B = "set (concat (map (\<lambda>tp. map fst (bucket_of st tp)) tps))"
  have split: "set (concat (map (\<lambda>tp. map fst (bucket_of st tp)) (tp # tps))) = ?A \<union> ?B"
    by simp
  have fmA: "\<forall>c \<in> ?A. \<exists>r. cond_match ns c obj = Inr r"
    using filter_matching_Inr [OF m] by auto
  have m_empty: "m = [] \<longleftrightarrow> (\<forall>c \<in> ?A. cond_match ns c obj \<noteq> Inr True)"
    using filter_matching_Inr [OF m] by (auto simp: filter_empty_conv)
  have ihB: "\<forall>c \<in> ?B. \<exists>r. cond_match ns c obj = Inr r"
    and rest_empty: "rest = [] \<longleftrightarrow> (\<forall>c \<in> ?B. cond_match ns c obj \<noteq> Inr True)"
    using Cons.IH [OF rest(1)] by blast+
  have "xs = [] \<longleftrightarrow> m = [] \<and> rest = []"
    using rest(2) s by simp
  then have "xs = [] \<longleftrightarrow> (\<forall>c \<in> ?A \<union> ?B. cond_match ns c obj \<noteq> Inr True)"
    using m_empty rest_empty by blast
  moreover have "\<forall>c \<in> ?A \<union> ?B. \<exists>r. cond_match ns c obj = Inr r"
    using fmA ihB by blast
  ultimately show ?case
    unfolding split by blast
qed

text \<open>The error of the first consulted condition that raises leaves the loop, unless
  the sort of an earlier level (typewise mode only) has raised before.\<close>

lemma levels_first:
  assumes "concat (map (\<lambda>tp. map fst (bucket_of st tp)) tps) = pre @ c # post"
    and "\<forall>c' \<in> set pre. \<exists>r. cond_match ns c' obj = Inr r"
    and "cond_match ns c obj = Inl e"
  shows "levels ns st obj tw tps = Inl e \<or>
         (tw \<and> levels ns st obj tw tps = Inl TypeError \<and>
          (\<exists>tp \<in> set tps. \<exists>m. filter_matching ns (bucket_of st tp) obj = Inr m \<and>
                                sorted_by_cond m = Inl TypeError))"
  using assms
proof (induction tps arbitrary: pre)
  case Nil
  then show ?case by simp
next
  case (Cons tp tps)
  let ?b = "map fst (bucket_of st tp)"
  let ?rest = "concat (map (\<lambda>tp. map fst (bucket_of st tp)) tps)"
  from Cons.prems(1) have eq: "?b @ ?rest = pre @ c # post" by simp
  then consider
    (here) us where "?b = pre @ us" "us @ ?rest = c # post" "us \<noteq> []"
    | (later) us where "?b @ us = pre" "?rest = us @ c # post"
    unfolding append_eq_append_conv2 [of ?b ?rest pre "c # post"]
    by (metis append_Nil2 append_Nil)
  then show ?case
  proof cases
    case here
    from here(2,3) obtain us' where "us = c # us'" by (cases us) simp_all
    with here(1) have "map fst (bucket_of st tp) = pre @ c # us'" by simp
    from filter_matching_first [OF this Cons.prems(2,3)]
    show ?thesis by simp
  next
    case later
    have allb: "\<forall>(c', v) \<in> set (bucket_of st tp). \<exists>r. cond_match ns c' obj = Inr r"
    proof -
      have pre: "set pre = fst ` set (bucket_of st tp) \<union> set us"
        unfolding later(1) [symmetric] by simp
      show ?thesis
      proof (clarify)
        fix c' v assume "(c', v) \<in> set (bucket_of st tp)"
        then have "c' \<in> fst ` set (bucket_of st tp)" by force
        then have "c' \<in> set pre" unfolding pre by blast
        with Cons.prems(2) show "\<exists>r. cond_match ns c' obj = Inr r" by blast
      qed
    qed
    have alus: "\<forall>c' \<in> set us. \<exists>r. cond_match ns c' obj = Inr r"
      using Cons.prems(2) later(1) by auto
    define m where "m = filter (\<lambda>(c, v). cond_match ns c obj = Inr True) (bucket_of st tp)"
    have fm: "filter_matching ns (bucket_of st tp) obj = Inr m"
      unfolding m_def by (rule filter_matching_all [OF allb])
    note ih = Cons.IH [OF later(2) alus Cons.prems(3)]
    show ?thesis
    proof (cases "if tw then sorted_by_cond m else Inr m")
      case (Inl e')
      from Inl have tw: tw by (cases tw) simp_all
      with Inl have sm: "sorted_by_cond m = Inl e'" by simp
      from sorted_by_cond_Inl [OF sm] have e': "e' = TypeError" .
      have "levels ns st obj tw (tp # tps) = Inl TypeError"
        using fm Inl e' by simp
      moreover have "\<exists>tp' \<in> set (tp # tps). \<exists>m. filter_matching ns (bucket_of st tp') obj = Inr m \<and>
                                sorted_by_cond m = Inl TypeError"
        using fm sm e' by auto
      ultimately show ?thesis using tw by blast
    next
      case (Inr s)
      from ih show ?thesis
      proof
        assume "levels ns st obj tw tps = Inl e"
        with fm Inr show ?thesis by simp
      next
        assume a: "tw \<and> levels ns st obj tw tps = Inl TypeError \<and>
          (\<exists>tp \<in> set tps. \<exists>m. filter_matching ns (bucket_of st tp) obj = Inr m \<and>
                                sorted_by_cond m = Inl TypeError)"
        then have lt: "levels ns st obj tw tps = Inl TypeError" by blast
        have "levels ns st obj tw (tp # tps) = Inl TypeError"
          using fm Inr lt by simp
        moreover from a have "\<exists>tp' \<in> set (tp # tps). \<exists>m.
            filter_matching ns (bucket_of st tp') obj = Inr m \<and> sorted_by_cond m = Inl TypeError"
          by auto
        ultimately show ?thesis using a by blast
      qed
    qed
  qed
qed

lemma filter_matching_none:
  "\<forall>c \<in> set (map fst b). cond_match ns c obj = Inr False \<Longrightarrow> filter_matching ns b obj = Inr []"
  by (induction b) auto

lemma levels_none:
  "\<forall>c \<in> set (concat (map (\<lambda>tp. map fst (bucket_of st tp)) tps)). cond_match ns c obj = Inr False \<Longrightarrow>
     levels ns st obj tw tps = Inr []"
proof (induction tps)
  case Nil
  show ?case by simp
next
  case (Cons tp tps)
  have "\<forall>c \<in> set (map fst (bucket_of st tp)). cond_match ns c obj = Inr False"
    using Cons.prems by simp
  then have fm: "filter_matching ns (bucket_of st tp) obj = Inr []"
    by (rule filter_matching_none)
  have "\<forall>c \<in> set (concat (map (\<lambda>tp. map fst (bucket_of st tp)) tps)). cond_match ns c obj = Inr False"
    using Cons.prems by simp
  from Cons.IH [OF this] fm show ?case by (cases tw) (simp_all add: sorted_by_cond_Nil)
qed

text \<open>
  C3, as the code has it. \<^verbatim>\<open>Options.match\<close> walks the conditions stored under the types
  of the object's ancestry chain, most general type first. When every one of them
  returns false for the object it raises \<^verbatim>\<open>NoMatchError\<close> carrying the object. It
  raises no \<^verbatim>\<open>NoMatchError\<close> of its own otherwise: a \<^verbatim>\<open>NoMatchError\<close> that leaves
  \<^verbatim>\<open>Options.match\<close> while some condition did not return false was raised by the
  \<^verbatim>\<open>match\<close> of a consulted condition. And the error raised by the \<^verbatim>\<open>match\<close> of the
  first consulted condition that raises propagates to the caller unchanged; the
  only thing that can pre-empt it is the \<^verbatim>\<open>TypeError\<close> of the sort of an earlier
  level, which exists in typewise mode only.
\<close>

theorem C3_amended:
  "((\<forall>c \<in> set (consulted st obj). cond_match ns c obj = Inr False) \<longrightarrow>
      fst (Options_match ns st obj tw) = Inl (NoMatchError obj)) \<and>
   (fst (Options_match ns st obj tw) = Inl (NoMatchError x) \<longrightarrow>
      (x = obj \<and> (\<forall>c \<in> set (consulted st obj). cond_match ns c obj = Inr False)) \<or>
      (\<exists>c \<in> set (consulted st obj). cond_match ns c obj = Inl (NoMatchError x))) \<and>
   (consulted st obj = pre @ c # post \<and>
    (\<forall>c' \<in> set pre. \<exists>r. cond_match ns c' obj = Inr r) \<and>
    cond_match ns c obj = Inl e \<longrightarrow>
      fst (Options_match ns st obj tw) = Inl e \<or>
      (tw \<and> fst (Options_match ns st obj tw) = Inl TypeError \<and>
       (\<exists>tp \<in> set (mro (type_of obj)). \<exists>m.
           filter_matching ns (bucket_of st tp) obj = Inr m \<and>
           sorted_by_cond m = Inl TypeError)))"
proof -
  let ?tps = "rev (mro (type_of obj))"
  let ?res = "fst (Options_match ns st obj tw)"
  have cs: "consulted st obj = concat (map (\<lambda>tp. map fst (bucket_of st tp)) ?tps)"
    by (simp add: consulted_def)
  have none: "?res = Inl (NoMatchError obj)"
    if allF: "\<forall>c \<in> set (consulted st obj). cond_match ns c obj = Inr False"
  proof -
    from allF have "levels ns st obj tw ?tps = Inr []"
      unfolding cs by (rule levels_none)
    then show ?thesis
      by (cases tw) (simp_all add: Options_match_levels sorted_by_cond_Nil)
  qed
  have only: "(x = obj \<and> (\<forall>c \<in> set (consulted st obj). cond_match ns c obj = Inr False)) \<or>
      (\<exists>c \<in> set (consulted st obj). cond_match ns c obj = Inl (NoMatchError x))"
    if r: "?res = Inl (NoMatchError x)"
  proof (cases "levels ns st obj tw ?tps")
    case (Inl e')
    with r have "e' = NoMatchError x" by (simp add: Options_match_levels)
    with levels_Inl [OF Inl] show ?thesis unfolding cs by blast
  next
    case (Inr xs)
    note lv = levels_Inr [OF Inr]
    show ?thesis
    proof (cases "if \<not> tw then sorted_by_cond xs else Inr xs")
      case (Inl e')
      then have "\<not> tw" by (cases tw) simp_all
      with Inl have "sorted_by_cond xs = Inl e'" by simp
      from sorted_by_cond_Inl [OF this] have "e' = TypeError" .
      with r Inr Inl show ?thesis by (simp add: Options_match_levels)
    next
      case (Inr s)
      have s: "s = [] \<longleftrightarrow> xs = []"
      proof (cases tw)
        case True
        with Inr show ?thesis by simp
      next
        case False
        with Inr have "sorted_by_cond xs = Inr s" by simp
        from sorted_by_cond_Inr(2) [OF this] show ?thesis .
      qed
      have res: "?res = (case map snd s of [] \<Rightarrow> Inl (NoMatchError obj) | v # vs \<Rightarrow> reduce_or v vs)"
        using \<open>levels ns st obj tw ?tps = Inr xs\<close> Inr by (simp add: Options_match_levels)
      show ?thesis
      proof (cases s)
        case Nil
        with res r have x: "x = obj" by simp
        from Nil s have "xs = []" by simp
        with lv have "\<forall>c \<in> set (consulted st obj). cond_match ns c obj = Inr False"
          unfolding cs by (metis (full_types))
        with x show ?thesis by blast
      next
        case (Cons y ys)
        with res r have "reduce_or (snd y) (map snd ys) = Inl (NoMatchError x)" by simp
        from reduce_or_exc [OF this] show ?thesis by simp
      qed
    qed
  qed
  have propagates: "?res = Inl e \<or>
      (tw \<and> ?res = Inl TypeError \<and>
       (\<exists>tp \<in> set (mro (type_of obj)). \<exists>m.
           filter_matching ns (bucket_of st tp) obj = Inr m \<and>
           sorted_by_cond m = Inl TypeError))"
    if h: "consulted st obj = pre @ c # post"
      "\<forall>c' \<in> set pre. \<exists>r. cond_match ns c' obj = Inr r"
      "cond_match ns c obj = Inl e"
  proof -
    from h(1) have "concat (map (\<lambda>tp. map fst (bucket_of st tp)) ?tps) = pre @ c # post"
      unfolding cs .
    from levels_first [OF this h(2,3), of tw]
    have "levels ns st obj tw ?tps = Inl e \<or>
         (tw \<and> levels ns st obj tw ?tps = Inl TypeError \<and>
          (\<exists>tp \<in> set (mro (type_of obj)). \<exists>m. filter_matching ns (bucket_of st tp) obj = Inr m \<and>
                                sorted_by_cond m = Inl TypeError))"
      by simp
    then show ?thesis
    proof
      assume "levels ns st obj tw ?tps = Inl e"
      then have "?res = Inl e" by (simp add: Options_match_levels)
      then show ?thesis by blast
    next
      assume a: "tw \<and> levels ns st obj tw ?tps = Inl TypeError \<and>
          (\<exists>tp \<in> set (mro (type_of obj)). \<exists>m. filter_matching ns (bucket_of st tp) obj = Inr m \<and>
                                sorted_by_cond m = Inl TypeError)"
      then have "levels ns st obj tw ?tps = Inl TypeError" by blast
      then have "?res = Inl TypeError" by (simp add: Options_match_levels)
      with a show ?thesis by blast
    qed
  qed
  from none only propagates show ?thesis by blast
qed

text \<open>
  An instance: the only condition consulted for the empty dictionary,
  \<^verbatim>\<open>match(dict)['key'] == 'value'\<close>, returns false, and \<^verbatim>\<open>NoMatchError\<close> is raised; the
  only condition consulted for an object whose attribute \<^verbatim>\<open>a\<close> is a property that
  raises \<^verbatim>\<open>ValueError\<close> is \<^verbatim>\<open>match(object).a > 0\<close>, and the \<^verbatim>\<open>ValueError\<close> propagates.
\<close>

theorem C3_amended_witness:
  "consulted
     [(dict_t, [(Comparison CompareItem dict_t (AStr ''key'') OpEq (Atom (AStr ''value'')),
                 Wrap LastSeenWins (Plain (Atom (AInt 1))))])]
     (Plain (PDict fmempty)) =
     [Comparison CompareItem dict_t (AStr ''key'') OpEq (Atom (AStr ''value''))] \<and>
   cond_match no_attrs
     (Comparison CompareItem dict_t (AStr ''key'') OpEq (Atom (AStr ''value'')))
     (Plain (PDict fmempty)) = Inr False \<and>
   fst (Options_match no_attrs
        [(dict_t, [(Comparison CompareItem dict_t (AStr ''key'') OpEq (Atom (AStr ''value'')),
                    Wrap LastSeenWins (Plain (Atom (AInt 1))))])]
        (Plain (PDict fmempty)) False) = Inl (NoMatchError (Plain (PDict fmempty))) \<and>
   consulted
     [(object_t, [(Comparison CompareAttr object_t (AStr ''a'') OpGt (Atom (AInt 0)),
                   Wrap LastSeenWins (Plain (Atom (AInt 1))))])]
     (Plain (PInst 0 (Class ''A'' [object_t]) [])) =
     [Comparison CompareAttr object_t (AStr ''a'') OpGt (Atom (AInt 0))] \<and>
   cond_match (\<lambda>obj n. if n = ''a'' then Some (Inl ValueError) else None)
     (Comparison CompareAttr object_t (AStr ''a'') OpGt (Atom (AInt 0)))
     (Plain (PInst 0 (Class ''A'' [object_t]) [])) = Inl ValueError \<and>
   fst (Options_match (\<lambda>obj n. if n = ''a'' then Some (Inl ValueError) else None)
        [(object_t, [(Comparison CompareAttr object_t (AStr ''a'') OpGt (Atom (AInt 0)),
                      Wrap LastSeenWins (Plain (Atom (AInt 1))))])]
        (Plain (PInst 0 (Class ''A'' [object_t]) [])) False) = Inl ValueError"
proof -
  let ?c = "Comparison CompareItem dict_t (AStr ''key'') OpEq (Atom (AStr ''value''))"
  let ?st = "[(dict_t, [(?c, Wrap LastSeenWins (Plain (Atom (AInt 1))))])]"
  let ?d = "Comparison CompareAttr object_t (AStr ''a'') OpGt (Atom (AInt 0))"
  let ?su = "[(object_t, [(?d, Wrap LastSeenWins (Plain (Atom (AInt 1))))])]"
  let ?o = "Plain (PInst 0 (Class ''A'' [object_t]) [])"
  let ?ns = "\<lambda>(obj :: value) n. if n = ''a'' then Some (Inl ValueError :: exc + value) else None"
  have cs: "consulted ?st (Plain (PDict fmempty)) = [?c]"
    by (simp add: consulted_def bucket_of_def builtin_types)
  have m: "cond_match no_attrs ?c (Plain (PDict fmempty)) = Inr False"
    by (simp add: Comparison_match_def)
  have h: "\<forall>c \<in> set (consulted ?st (Plain (PDict fmempty))).
      cond_match no_attrs c (Plain (PDict fmempty)) = Inr False"
    using cs m by simp
  have r1: "fst (Options_match no_attrs ?st (Plain (PDict fmempty)) False) =
      Inl (NoMatchError (Plain (PDict fmempty)))"
    using h C3_amended [of ?st "Plain (PDict fmempty)" no_attrs False]
    by blast
  have ds: "consulted ?su ?o = [?d]"
    by (simp add: consulted_def bucket_of_def builtin_types)
  have ds': "consulted ?su ?o = [] @ ?d # []" using ds by simp
  have n: "cond_match ?ns ?d ?o = Inl ValueError"
    by (simp add: Comparison_match_def builtin_types)
  have pre: "\<forall>c' \<in> set []. \<exists>r. cond_match ?ns c' ?o = Inr r" by simp
  have r2: "fst (Options_match ?ns ?su ?o False) = Inl ValueError"
    using ds' pre n C3_amended [of ?su ?o ?ns False _ "[]" ?d "[]" ValueError]
    by blast
  from cs m r1 ds n r2 show ?thesis by blast
qed

text \<open>
  C3 as stated fails where a consulted condition raises: the only condition
  consulted for the dictionary \<^verbatim>\<open>{'x': 'a'}\<close> is \<^verbatim>\<open>match(dict)['x'] > 0\<close>, it is not
  satisfied, and \<^verbatim>\<open>Options.match\<close> raises the \<^verbatim>\<open>TypeError\<close> of \<^verbatim>\<open>'a' > 0\<close>, not
  \<^verbatim>\<open>NoMatchError\<close>.
\<close>

theorem C3_counterexample:
  "consulted [(dict_t, [(Comparison CompareItem dict_t (AStr ''x'') OpGt (Atom (AInt 0)),
                         Wrap LastSeenWins (Plain (Atom (AStr ''positive''))))])]
     (Plain (PDict (fmupd (AStr ''x'') (AStr ''a'') fmempty))) =
     [Comparison CompareItem dict_t (AStr ''x'') OpGt (Atom (AInt 0))] \<and>
   cond_match no_attrs (Comparison CompareItem dict_t (AStr ''x'') OpGt (Atom (AInt 0)))
     (Plain (PDict (fmupd (AStr ''x'') (AStr ''a'') fmempty))) \<noteq> Inr True \<and>
   fst (Options_match no_attrs
     [(dict_t, [(Comparison CompareItem dict_t (AStr ''x'') OpGt (Atom (AInt 0)),
                 Wrap LastSeenWins (Plain (Atom (AStr ''positive''))))])]
     (Plain (PDict (fmupd (AStr ''x'') (AStr ''a'') fmempty))) False) = Inl TypeError"
  by (simp add: consulted_def bucket_of_def Options_match_def types_get_def
        Comparison_match_def builtin_types)

section \<open>The store is not modified\<close>

lemma types_get_frame:
  "Options_items (snd (types_get st tp)) = Options_items st \<and>
   Options_iter (snd (types_get st tp)) = Options_iter st \<and>
   Options_len (snd (types_get st tp)) = Options_len st"
  by (simp add: types_get_def Options_items_def Options_iter_def Options_len_def
           split: option.splits)

lemma collect_frame:
  "Options_items (snd (collect ns tps obj tw st acc)) = Options_items st \<and>
   Options_iter (snd (collect ns tps obj tw st acc)) = Options_iter st \<and>
   Options_len (snd (collect ns tps obj tw st acc)) = Options_len st \<and>
   (\<forall>tp. bucket_of (snd (collect ns tps obj tw st acc)) tp = bucket_of st tp)"
proof (induction tps arbitrary: st acc)
  case Nil
  show ?case by simp
next
  case (Cons tp tps)
  obtain b st' where g: "types_get st tp = (b, st')" by (cases "types_get st tp")
  have fr: "Options_items st' = Options_items st" "Options_iter st' = Options_iter st"
    "Options_len st' = Options_len st" "\<And>tp'. bucket_of st' tp' = bucket_of st tp'"
    using g types_get_frame [of st tp] types_get_bucket_of [of st tp] by simp_all
  show ?case
  proof (cases "filter_matching ns b obj")
    case (Inl e)
    with g fr show ?thesis by simp
  next
    case (Inr m)
    show ?thesis
    proof (cases "if tw then sorted_by_cond m else Inr m")
      case (Inl e)
      with g fr Inr show ?thesis by simp
    next
      case (Inr s)
      with g fr \<open>filter_matching ns b obj = Inr m\<close> Cons.IH [of st' "acc @ s"]
      show ?thesis by simp
    qed
  qed
qed

lemma Options_match_snd:
  "snd (Options_match ns st obj tw) = snd (collect ns (rev (mro (type_of obj))) obj tw st [])"
  by (auto simp: Options_match_def split: prod.splits sum.splits list.splits)

lemma Options_getitem_fst:
  "fst (Options_getitem st c) =
     (case map_of (bucket_of st (cond_type c)) c of None \<Rightarrow> Inl KeyError | Some v \<Rightarrow> Inr v)"
  using types_get_fst [of st "cond_type c"]
  by (auto simp: Options_getitem_def split: prod.splits option.splits)

text \<open>
  C9. \<^verbatim>\<open>Options.match\<close> leaves the contents of the store as they were, whether it
  returns a value or raises: the entries, the result of iteration, the length
  and the outcome of every lookup are those of the store before the call. (The
  \<^verbatim>\<open>defaultdict\<close> may gain empty dictionaries for the types of the ancestry chain.)
\<close>

theorem C9_match_frame:
  "Options_items (snd (Options_match ns st obj tw)) = Options_items st \<and>
   Options_iter (snd (Options_match ns st obj tw)) = Options_iter st \<and>
   Options_len (snd (Options_match ns st obj tw)) = Options_len st \<and>
   fst (Options_getitem (snd (Options_match ns st obj tw)) c) = fst (Options_getitem st c)"
  using collect_frame [of ns "rev (mro (type_of obj))" obj tw st "[]"]
  by (simp add: Options_match_snd Options_getitem_fst)

lemma Options_match_restrict:
  assumes "\<forall>tp \<in> set (mro (type_of obj)). fst (types_get st tp) = fst (types_get st' tp)"
  shows "fst (Options_match ns st obj tw) = fst (Options_match ns st' obj tw)"
proof -
  have "levels ns st obj tw (rev (mro (type_of obj))) = levels ns st' obj tw (rev (mro (type_of obj)))"
    by (rule levels_cong) (use assms in \<open>simp add: types_get_fst\<close>)
  then show ?thesis by (simp add: Options_match_levels)
qed

section \<open>Comparison conditions and the registry\<close>

text \<open>
  C2 as stated fails: an integer does not support item access, so
  \<^verbatim>\<open>CompareItem(dict, 'key', operator.eq, 'value').match(0)\<close> raises \<^verbatim>\<open>TypeError\<close>, which
  \<^verbatim>\<open>except (AttributeError, LookupError)\<close> does not catch.
\<close>

theorem C2_counterexample:
  "cond_match no_attrs (Comparison CompareItem dict_t (AStr ''key'') OpEq (Atom (AStr ''value'')))
     (Plain (Atom (AInt 0))) = Inl TypeError"
  by (simp add: Comparison_match_def)

text \<open>
  C2, as the code has it, for every \<^verbatim>\<open>Comparison\<close> condition and every object.
  When the retrieval fails with \<^verbatim>\<open>AttributeError\<close>, \<^verbatim>\<open>KeyError\<close> or \<^verbatim>\<open>IndexError\<close>,
  \<^verbatim>\<open>match\<close> returns false: so it does for a key missing from a dictionary, an index
  out of the range of a list and an attribute that the object does not have. Every
  other error propagates to the caller unchanged, whether the retrieval raises it
  (item access on an integer raises \<^verbatim>\<open>TypeError\<close>; a property may raise anything) or
  the operator does. When the retrieval returns a value and the operator returns
  \<open>b\<close>, \<^verbatim>\<open>match\<close> returns \<open>b\<close>. And an error that leaves \<^verbatim>\<open>match\<close> is one of those that
  the \<^verbatim>\<open>except\<close> clause does not catch, raised by the retrieval or by the operator.
\<close>

theorem C2_amended:
  "(retrieve ns k i obj = Inl e \<and> caught e \<longrightarrow>
      cond_match ns (Comparison k t i op r) obj = Inr False) \<and>
   (retrieve ns k i obj = Inl e \<and> \<not> caught e \<longrightarrow>
      cond_match ns (Comparison k t i op r) obj = Inl e) \<and>
   (retrieve ns k i obj = Inr v \<and> apply_op op v r = Inl e \<and> \<not> caught e \<longrightarrow>
      cond_match ns (Comparison k t i op r) obj = Inl e) \<and>
   (retrieve ns k i obj = Inr v \<and> apply_op op v r = Inr b \<longrightarrow>
      cond_match ns (Comparison k t i op r) obj = Inr b) \<and>
   (cond_match ns (Comparison k t i op r) obj = Inl e \<longrightarrow>
      \<not> caught e \<and>
      (retrieve ns k i obj = Inl e \<or>
       (\<exists>v'. retrieve ns k i obj = Inr v' \<and> apply_op op v' r = Inl e))) \<and>
   (caught e \<longleftrightarrow> e = AttributeError \<or> e = KeyError \<or> e = IndexError) \<and>
   (fmlookup m i = None \<longrightarrow>
      cond_match ns (Comparison CompareItem t i op r) (Plain (PDict m)) = Inr False) \<and>
   (j < - int (length xs) \<or> int (length xs) \<le> j \<longrightarrow>
      cond_match ns (Comparison CompareItem t (AInt j) op r) (Plain (PList xs)) = Inr False) \<and>
   (ns obj n = None \<and> stored_attr obj n = None \<longrightarrow>
      cond_match ns (Comparison CompareAttr t (AStr n) op r) obj = Inr False) \<and>
   cond_match ns (Comparison CompareItem t i op r) (Plain (Atom (AInt a))) = Inl TypeError"
proof -
  have c1: "retrieve ns k i obj = Inl e \<and> caught e \<longrightarrow>
      cond_match ns (Comparison k t i op r) obj = Inr False"
    by (simp add: Comparison_match_def)
  have c2: "retrieve ns k i obj = Inl e \<and> \<not> caught e \<longrightarrow>
      cond_match ns (Comparison k t i op r) obj = Inl e"
    by (simp add: Comparison_match_def)
  have c3: "retrieve ns k i obj = Inr v \<and> apply_op op v r = Inl e \<and> \<not> caught e \<longrightarrow>
      cond_match ns (Comparison k t i op r) obj = Inl e"
    by (simp add: Comparison_match_def)
  have c4: "retrieve ns k i obj = Inr v \<and> apply_op op v r = Inr b \<longrightarrow>
      cond_match ns (Comparison k t i op r) obj = Inr b"
    by (simp add: Comparison_match_def)
  have c5: "cond_match ns (Comparison k t i op r) obj = Inl e \<longrightarrow>
      \<not> caught e \<and>
      (retrieve ns k i obj = Inl e \<or>
       (\<exists>v'. retrieve ns k i obj = Inr v' \<and> apply_op op v' r = Inl e))"
  proof (cases "retrieve ns k i obj")
    case (Inl e')
    then show ?thesis by (cases "caught e'") (auto simp: Comparison_match_def)
  next
    case (Inr v')
    show ?thesis
    proof (cases "apply_op op v' r")
      case (Inl e')
      with Inr show ?thesis by (cases "caught e'") (auto simp: Comparison_match_def)
    next
      case (Inr b')
      with \<open>retrieve ns k i obj = Inr v'\<close> show ?thesis by (simp add: Comparison_match_def)
    qed
  qed
  have c6: "caught e \<longleftrightarrow> e = AttributeError \<or> e = KeyError \<or> e = IndexError"
    by (cases e) simp_all
  have c7: "fmlookup m i = None \<longrightarrow>
      cond_match ns (Comparison CompareItem t i op r) (Plain (PDict m)) = Inr False"
    by (simp add: Comparison_match_def)
  have c8: "j < - int (length xs) \<or> int (length xs) \<le> j \<longrightarrow>
      cond_match ns (Comparison CompareItem t (AInt j) op r) (Plain (PList xs)) = Inr False"
    by (auto simp: Comparison_match_def py_index_def)
  have c9: "ns obj n = None \<and> stored_attr obj n = None \<longrightarrow>
      cond_match ns (Comparison CompareAttr t (AStr n) op r) obj = Inr False"
    by (simp add: Comparison_match_def)
  have c10: "cond_match ns (Comparison CompareItem t i op r) (Plain (Atom (AInt a))) = Inl TypeError"
    by (simp add: Comparison_match_def)
  from c1 c2 c3 c4 c5 c6 c7 c8 c9 c10 show ?thesis by blast
qed

text \<open>
  Instances: \<^verbatim>\<open>match(dict)['key'] == 'value'\<close> on the empty dictionary (\<^verbatim>\<open>KeyError\<close>,
  false) and on the integer \<open>0\<close> (\<^verbatim>\<open>TypeError\<close>, propagated); \<^verbatim>\<open>match(object).a > 0\<close> on
  an object whose property \<open>a\<close> raises \<^verbatim>\<open>ValueError\<close> (propagated) and on an object
  without the attribute (false); \<^verbatim>\<open>match(dict)['x'] > 0\<close> on \<^verbatim>\<open>{'x': 'a'}\<close> (the operator
  raises \<^verbatim>\<open>TypeError\<close>, propagated) and on \<^verbatim>\<open>{'x': 1}\<close> (true); \<^verbatim>\<open>match(list)[5] == 1\<close> on
  \<^verbatim>\<open>[1, 2]\<close> (\<^verbatim>\<open>IndexError\<close>, false).
\<close>

theorem C2_amended_witness:
  "retrieve no_attrs CompareItem (AStr ''key'') (Plain (PDict fmempty)) = Inl KeyError \<and>
   caught KeyError \<and>
   cond_match no_attrs (Comparison CompareItem dict_t (AStr ''key'') OpEq (Atom (AStr ''value'')))
     (Plain (PDict fmempty)) = Inr False \<and>
   retrieve no_attrs CompareItem (AStr ''key'') (Plain (Atom (AInt 0))) = Inl TypeError \<and>
   \<not> caught TypeError \<and>
   cond_match no_attrs (Comparison CompareItem dict_t (AStr ''key'') OpEq (Atom (AStr ''value'')))
     (Plain (Atom (AInt 0))) = Inl TypeError \<and>
   retrieve (\<lambda>obj n. if n = ''a'' then Some (Inl ValueError) else None) CompareAttr (AStr ''a'')
     (Plain (PInst 0 (Class ''A'' [object_t]) [])) = Inl ValueError \<and>
   \<not> caught ValueError \<and>
   cond_match (\<lambda>obj n. if n = ''a'' then Some (Inl ValueError) else None)
     (Comparison CompareAttr object_t (AStr ''a'') OpGt (Atom (AInt 0)))
     (Plain (PInst 0 (Class ''A'' [object_t]) [])) = Inl ValueError \<and>
   no_attrs (Plain (PInst 0 (Class ''A'' [object_t]) [])) ''a'' = None \<and>
   stored_attr (Plain (PInst 0 (Class ''A'' [object_t]) [])) ''a'' = None \<and>
   cond_match no_attrs (Comparison CompareAttr object_t (AStr ''a'') OpGt (Atom (AInt 0)))
     (Plain (PInst 0 (Class ''A'' [object_t]) [])) = Inr False \<and>
   retrieve no_attrs CompareItem (AStr ''x'')
     (Plain (PDict (fmupd (AStr ''x'') (AStr ''a'') fmempty))) = Inr (Plain (Atom (AStr ''a''))) \<and>
   apply_op OpGt (Plain (Atom (AStr ''a''))) (Atom (AInt 0)) = Inl TypeError \<and>
   cond_match no_attrs (Comparison CompareItem dict_t (AStr ''x'') OpGt (Atom (AInt 0)))
     (Plain (PDict (fmupd (AStr ''x'') (AStr ''a'') fmempty))) = Inl TypeError \<and>
   retrieve no_attrs CompareItem (AStr ''x'')
     (Plain (PDict (fmupd (AStr ''x'') (AInt 1) fmempty))) = Inr (Plain (Atom (AInt 1))) \<and>
   apply_op OpGt (Plain (Atom (AInt 1))) (Atom (AInt 0)) = Inr True \<and>
   cond_match no_attrs (Comparison CompareItem dict_t (AStr ''x'') OpGt (Atom (AInt 0)))
     (Plain (PDict (fmupd (AStr ''x'') (AInt 1) fmempty))) = Inr True \<and>
   int (length [AInt 1, AInt 2]) \<le> 5 \<and>
   cond_match no_attrs (Comparison CompareItem list_t (AInt 5) OpEq (Atom (AInt 1)))
     (Plain (PList [AInt 1, AInt 2])) = Inr False"
proof -
  let ?ck = "Comparison CompareItem dict_t (AStr ''key'') OpEq (Atom (AStr ''value''))"
  let ?cx = "Comparison CompareItem dict_t (AStr ''x'') OpGt (Atom (AInt 0))"
  let ?ca = "Comparison CompareAttr object_t (AStr ''a'') OpGt (Atom (AInt 0))"
  let ?cl = "Comparison CompareItem list_t (AInt 5) OpEq (Atom (AInt 1))"
  let ?o = "Plain (PInst 0 (Class ''A'' [object_t]) [])"
  let ?ns = "\<lambda>(obj :: value) n. if n = ''a'' then Some (Inl ValueError :: exc + value) else None"
  let ?da = "Plain (PDict (fmupd (AStr ''x'') (AStr ''a'') fmempty))"
  let ?d1 = "Plain (PDict (fmupd (AStr ''x'') (AInt 1) fmempty))"
  have r1: "retrieve no_attrs CompareItem (AStr ''key'') (Plain (PDict fmempty)) = Inl KeyError"
    by simp
  have k1: "caught KeyError" by simp
  have m1: "cond_match no_attrs ?ck (Plain (PDict fmempty)) = Inr False"
    using r1 k1
      C2_amended [where ns = no_attrs and k = CompareItem and i = "AStr ''key''"
        and obj = "Plain (PDict fmempty)" and e = KeyError and t = dict_t and op = OpEq
        and r = "Atom (AStr ''value'')"]
    by blast
  have r2: "retrieve no_attrs CompareItem (AStr ''key'') (Plain (Atom (AInt 0))) = Inl TypeError"
    by simp
  have k2: "\<not> caught TypeError" by simp
  have m2: "cond_match no_attrs ?ck (Plain (Atom (AInt 0))) = Inl TypeError"
    using r2 k2
      C2_amended [where ns = no_attrs and k = CompareItem and i = "AStr ''key''"
        and obj = "Plain (Atom (AInt 0))" and e = TypeError and t = dict_t and op = OpEq
        and r = "Atom (AStr ''value'')"]
    by blast
  have r3: "retrieve ?ns CompareAttr (AStr ''a'') ?o = Inl ValueError"
    by simp
  have k3: "\<not> caught ValueError" by simp
  have m3: "cond_match ?ns ?ca ?o = Inl ValueError"
    using r3 k3
      C2_amended [where ns = ?ns and k = CompareAttr and i = "AStr ''a''"
        and obj = ?o and e = ValueError and t = object_t and op = OpGt
        and r = "Atom (AInt 0)"]
    by blast
  have n4: "no_attrs ?o ''a'' = None" by (simp add: no_attrs_def)
  have s4: "stored_attr ?o ''a'' = None" by simp
  have m4: "cond_match no_attrs ?ca ?o = Inr False"
    using n4 s4
      C2_amended [where ns = no_attrs and obj = ?o and n = "''a''" and t = object_t
        and op = OpGt and r = "Atom (AInt 0)"]
    by blast
  have r5: "retrieve no_attrs CompareItem (AStr ''x'') ?da = Inr (Plain (Atom (AStr ''a'')))"
    by simp
  have a5: "apply_op OpGt (Plain (Atom (AStr ''a''))) (Atom (AInt 0)) = Inl TypeError"
    by simp
  have m5: "cond_match no_attrs ?cx ?da = Inl TypeError"
    using r5 a5 k2
      C2_amended [where ns = no_attrs and k = CompareItem and i = "AStr ''x''"
        and obj = ?da and e = TypeError and t = dict_t and op = OpGt
        and r = "Atom (AInt 0)" and v = "Plain (Atom (AStr ''a''))"]
    by blast
  have r6: "retrieve no_attrs CompareItem (AStr ''x'') ?d1 = Inr (Plain (Atom (AInt 1)))"
    by simp
  have a6: "apply_op OpGt (Plain (Atom (AInt 1))) (Atom (AInt 0)) = Inr True"
    by simp
  have m6: "cond_match no_attrs ?cx ?d1 = Inr True"
    using r6 a6
      C2_amended [where ns = no_attrs and k = CompareItem and i = "AStr ''x''"
        and obj = ?d1 and t = dict_t and op = OpGt
        and r = "Atom (AInt 0)" and v = "Plain (Atom (AInt 1))" and b = True]
    by blast
  have l7: "int (length [AInt 1, AInt 2]) \<le> 5" by simp
  have m7: "cond_match no_attrs ?cl (Plain (PList [AInt 1, AInt 2])) = Inr False"
    using l7
      C2_amended [where ns = no_attrs and j = 5 and xs = "[AInt 1, AInt 2]" and t = list_t
        and op = OpEq and r = "Atom (AInt 1)"]
    by blast
  show ?thesis
    using r1 k1 m1 r2 k2 m2 r3 k3 m3 n4 s4 m4 r5 a5 m5 r6 a6 m6 l7 m7 by blast
qed

lemma map_of_dict_set: "map_of (dict_set kvs k v) k = Some v"
  by (induction kvs) auto

lemma map_of_dict_set_other: "k' \<noteq> k \<Longrightarrow> map_of (dict_set kvs k v) k' = map_of kvs k'"
  by (induction kvs) auto

lemma bucket_of_setitem:
  "bucket_of (Options_setitem st c v) (cond_type c) = dict_set (bucket_of st (cond_type c)) c v"
proof -
  obtain b st' where g: "types_get st (cond_type c) = (b, st')"
    by (cases "types_get st (cond_type c)")
  have "b = bucket_of st (cond_type c)" using g types_get_fst [of st "cond_type c"] by simp
  then show ?thesis
    using g by (simp add: Options_setitem_def bucket_of_def map_of_dict_set)
qed

lemma getitem_setitem: "fst (Options_getitem (Options_setitem st c v) c) = Inr v"
  by (simp add: Options_getitem_fst bucket_of_setitem map_of_dict_set)

lemma WRAPPER_TYPES_eq:
  "WRAPPER_TYPES =
     [(object_t, [(IsInstance object_t, Wrap LastSeenWins (Plain (PCallable ClsLastSeenWins)))]),
      (dict_t, [(IsInstance dict_t, Wrap LastSeenWins (Plain (PCallable ClsCopyUpdate)))]),
      (set_t, [(IsInstance set_t, Wrap LastSeenWins (Plain (PCallable ClsCopyUpdate)))]),
      (Wrapper_t, [(IsInstance Wrapper_t, Wrap LastSeenWins (Plain (PCallable LambdaIdentity)))])]"
  by (simp add: WRAPPER_TYPES_def Options_init_def Options_setitem_def types_get_def builtin_types)

lemma registry_wrapper:
  "fst (Spec_match ns WRAPPER_TYPES (Wrap k p) False) = Inr (Plain (PCallable LambdaIdentity))"
  by (cases k)
     (simp_all add: WRAPPER_TYPES_eq Spec_match_def Options_match_def types_get_def
        sorted_by_cond_def py_lt_def mro_method_def py_or_def LastSeenWins_or_def
        IsInstance_match_def isinstance_def builtin_types)

text \<open>
  C8. For every instance of \<^verbatim>\<open>Wrapper\<close>, \<^verbatim>\<open>CopyUpdate\<close> or \<^verbatim>\<open>LastSeenWins\<close>, whatever it
  holds, the registry resolves to the identity function, applying it returns the
  wrapper itself, and \<^verbatim>\<open>add_pattern\<close> stores that very wrapper: looking the
  condition up afterwards returns it.
\<close>

theorem C8_no_double_wrap:
  "fst (Spec_match ns WRAPPER_TYPES (Wrap k p) False) = Inr (Plain (PCallable LambdaIdentity)) \<and>
   py_call (Plain (PCallable LambdaIdentity)) (Wrap k p) = Inr (Wrap k p) \<and>
   fst (add_pattern ns sp WRAPPER_TYPES pattern (Wrap k p)) = Inr () \<and>
   fst (snd (add_pattern ns sp WRAPPER_TYPES pattern (Wrap k p))) =
     Options_setitem sp (make_condition_from_pattern pattern) (Wrap k p) \<and>
   fst (Options_getitem (fst (snd (add_pattern ns sp WRAPPER_TYPES pattern (Wrap k p))))
          (make_condition_from_pattern pattern)) = Inr (Wrap k p)"
proof -
  obtain reg' where m: "Spec_match ns WRAPPER_TYPES (Wrap k p) False =
      (Inr (Plain (PCallable LambdaIdentity)), reg')"
    using registry_wrapper [of ns k p] by (cases "Spec_match ns WRAPPER_TYPES (Wrap k p) False") simp
  have a: "add_pattern ns sp WRAPPER_TYPES pattern (Wrap k p) =
      (Inr (), Options_setitem sp (make_condition_from_pattern pattern) (Wrap k p), reg')"
    using m by (simp add: add_pattern_def)
  show ?thesis
    using registry_wrapper [of ns k p] a by (simp add: getitem_setitem)
qed

text \<open>The same holds for the registry after any number of uses: a registry with the
  dictionaries of \<^verbatim>\<open>WRAPPER_TYPES\<close> under every type resolves a wrapper to the
  identity function, and a use of the registry leaves those dictionaries as they
  were.\<close>

lemma Spec_match_fst:
  "fst (Spec_match ns sp obj tw) =
     (case fst (Options_match ns sp obj tw) of Inl e \<Rightarrow> Inl e | Inr v \<Rightarrow> Inr (unwrap v))"
  by (simp add: Spec_match_def split: prod.splits sum.splits)

lemma Spec_match_snd: "snd (Spec_match ns sp obj tw) = snd (Options_match ns sp obj tw)"
  by (simp add: Spec_match_def split: prod.splits sum.splits)

lemma registry_wrapper_used:
  assumes "\<forall>tp. bucket_of registry tp = bucket_of WRAPPER_TYPES tp"
  shows "fst (Spec_match ns registry (Wrap k p) False) = Inr (Plain (PCallable LambdaIdentity))"
    and "\<forall>tp. bucket_of (snd (Spec_match ns registry v False)) tp = bucket_of WRAPPER_TYPES tp"
proof -
  have "\<forall>tp \<in> set (mro (type_of (Wrap k p))).
      fst (types_get registry tp) = fst (types_get WRAPPER_TYPES tp)"
    using assms by (simp add: types_get_fst)
  from Options_match_restrict [OF this, of ns False]
  have "fst (Spec_match ns registry (Wrap k p) False) =
      fst (Spec_match ns WRAPPER_TYPES (Wrap k p) False)"
    by (simp add: Spec_match_fst)
  then show "fst (Spec_match ns registry (Wrap k p) False) =
      Inr (Plain (PCallable LambdaIdentity))"
    by (simp add: registry_wrapper)
  have "snd (Spec_match ns registry v False) = snd (Options_match ns registry v False)"
    by (rule Spec_match_snd)
  then show "\<forall>tp. bucket_of (snd (Spec_match ns registry v False)) tp = bucket_of WRAPPER_TYPES tp"
    using collect_frame [of ns "rev (mro (type_of v))" v False registry "[]"] assms
    by (simp add: Options_match_snd)
qed

text \<open>
  C10. \<^verbatim>\<open>Comparison.match\<close> does not depend on the bound type: it is true
  whenever the retrieval succeeds and the operator holds. An instance of a class
  \<open>B\<close> with the attribute \<open>a = 1\<close> satisfies \<^verbatim>\<open>match(A).a > 0\<close> although it is no
  instance of \<open>A\<close>. The outcome of \<^verbatim>\<open>Options.match\<close> depends on the store only
  through the dictionaries under the types of the object's ancestry chain.
\<close>

theorem C10_bound_type_not_tested:
  "cond_match ns (Comparison k t i op r) obj = cond_match ns (Comparison k t' i op r) obj \<and>
   (\<not> isinstance (Plain (PInst 1 (Class ''B'' [object_t]) [(''a'', Atom (AInt 1))]))
        (Class ''A'' [object_t]) \<and>
    cond_match no_attrs
        (Comparison CompareAttr (Class ''A'' [object_t]) (AStr ''a'') OpGt (Atom (AInt 0)))
        (Plain (PInst 1 (Class ''B'' [object_t]) [(''a'', Atom (AInt 1))])) = Inr True) \<and>
   ((\<forall>tp \<in> set (mro (type_of obj)). fst (types_get st tp) = fst (types_get st' tp)) \<longrightarrow>
      fst (Options_match ns st obj tw) = fst (Options_match ns st' obj tw)) \<and>
   (retrieve ns k i obj = Inr v \<and> apply_op op v r = Inr True \<longrightarrow>
      cond_match ns (Comparison k t i op r) obj = Inr True)"
  using Options_match_restrict [of obj st st' ns tw]
  by (simp add: isinstance_def builtin_types Comparison_match_def no_attrs_def)

theorem C10_bound_type_not_tested_witness:
  "mro (type_of (Plain (PInst 1 (Class ''B'' [object_t]) [(''a'', Atom (AInt 1))]))) =
     [Class ''B'' [object_t], object_t] \<and>
   fst (types_get
         [(Class ''A'' [object_t],
           [(Comparison CompareAttr (Class ''A'' [object_t]) (AStr ''a'') OpGt (Atom (AInt 0)),
             Wrap LastSeenWins (Plain (Atom (AStr ''positive''))))])]
         (Class ''B'' [object_t])) = fst (types_get [] (Class ''B'' [object_t])) \<and>
   fst (types_get
         [(Class ''A'' [object_t],
           [(Comparison CompareAttr (Class ''A'' [object_t]) (AStr ''a'') OpGt (Atom (AInt 0)),
             Wrap LastSeenWins (Plain (Atom (AStr ''positive''))))])]
         object_t) = fst (types_get [] object_t) \<and>
   fst (Options_match no_attrs
         [(Class ''A'' [object_t],
           [(Comparison CompareAttr (Class ''A'' [object_t]) (AStr ''a'') OpGt (Atom (AInt 0)),
             Wrap LastSeenWins (Plain (Atom (AStr ''positive''))))])]
         (Plain (PInst 1 (Class ''B'' [object_t]) [(''a'', Atom (AInt 1))])) False) =
     Inl (NoMatchError (Plain (PInst 1 (Class ''B'' [object_t]) [(''a'', Atom (AInt 1))]))) \<and>
   retrieve no_attrs CompareAttr (AStr ''a'')
     (Plain (PInst 1 (Class ''B'' [object_t]) [(''a'', Atom (AInt 1))])) =
     Inr (Plain (Atom (AInt 1))) \<and>
   apply_op OpGt (Plain (Atom (AInt 1))) (Atom (AInt 0)) = Inr True \<and>
   cond_match no_attrs
     (Comparison CompareAttr (Class ''A'' [object_t]) (AStr ''a'') OpGt (Atom (AInt 0)))
     (Plain (PInst 1 (Class ''B'' [object_t]) [(''a'', Atom (AInt 1))])) = Inr True"
proof -
  let ?obj = "Plain (PInst 1 (Class ''B'' [object_t]) [(''a'', Atom (AInt 1))])"
  let ?c = "Comparison CompareAttr (Class ''A'' [object_t]) (AStr ''a'') OpGt (Atom (AInt 0))"
  let ?st = "[(Class ''A'' [object_t], [(?c, Wrap LastSeenWins (Plain (Atom (AStr ''positive''))))])]"
  have m: "mro (type_of ?obj) = [Class ''B'' [object_t], object_t]"
    by simp
  have b: "fst (types_get ?st (Class ''B'' [object_t])) = fst (types_get [] (Class ''B'' [object_t]))"
    by (simp add: types_get_def)
  have o: "fst (types_get ?st object_t) = fst (types_get [] object_t)"
    by (simp add: types_get_def builtin_types)
  have h: "\<forall>tp \<in> set (mro (type_of ?obj)). fst (types_get ?st tp) = fst (types_get [] tp)"
    using b o unfolding m by simp
  have e: "fst (Options_match no_attrs [] ?obj False) = Inl (NoMatchError ?obj)"
    by (simp add: Options_match_def types_get_def builtin_types sorted_by_cond_def)
  have r: "retrieve no_attrs CompareAttr (AStr ''a'') ?obj = Inr (Plain (Atom (AInt 1)))"
    by (simp add: no_attrs_def)
  have a: "apply_op OpGt (Plain (Atom (AInt 1))) (Atom (AInt 0)) = Inr True"
    by simp
  note inst = C10_bound_type_not_tested [of no_attrs CompareAttr "Class ''A'' [object_t]"
      "AStr ''a''" OpGt "Atom (AInt 0)" ?obj object_t ?st "[]" False "Plain (Atom (AInt 1))"]
  from inst h have "fst (Options_match no_attrs ?st ?obj False) =
      fst (Options_match no_attrs [] ?obj False)"
    by blast
  moreover from inst r a have "cond_match no_attrs ?c ?obj = Inr True"
    by blast
  ultimately show ?thesis
    using m b o e r a by simp
qed

section \<open>Combination of the matched values\<close>

lemma reduce_or_append:
  "reduce_or acc (xs @ ys) =
     (case reduce_or acc xs of Inl e \<Rightarrow> Inl e | Inr acc' \<Rightarrow> reduce_or acc' ys)"
  by (induction xs arbitrary: acc) (simp_all split: sum.splits)

lemma Options_match_reduce:
  assumes "fst (collect ns (rev (mro (type_of obj))) obj tw st []) = Inr opts"
    and "(if \<not> tw then sorted_by_cond opts else Inr opts) = Inr (x # xs)"
  shows "fst (Options_match ns st obj tw) = reduce_or (snd x) (map snd xs)"
proof -
  obtain st' where "collect ns (rev (mro (type_of obj))) obj tw st [] = (Inr opts, st')"
    using assms(1) by (cases "collect ns (rev (mro (type_of obj))) obj tw st []") simp
  then show ?thesis
    using assms(2) by (simp add: Options_match_def)
qed

lemma CopyUpdate_sentinel:
  assumes "CopyUpdate_or p b = Inr None"
  shows "py_or (Wrap CopyUpdate p) b =
           (case b of Wrap LastSeenWins y \<Rightarrow> Inr b | _ \<Rightarrow> Inl TypeError)"
proof (cases b)
  case (Plain q)
  have "type_of (Plain q) \<noteq> CopyUpdate_t \<or> type_of (Plain q) = CopyUpdate_t" by simp
  with assms Plain show ?thesis
    by (cases q) (auto simp: py_or_def)
next
  case (Wrap k v)
  with assms show ?thesis
    by (cases k) (auto simp: py_or_def builtin_types LastSeenWins_ror_def)
qed

lemma CopyUpdate_or_dict:
  "CopyUpdate_or (Plain (PDict m)) b =
     (case dict_update m (unwrap b) of
        Inl e \<Rightarrow> Inr None
      | Inr m' \<Rightarrow> Inr (Some (Wrap CopyUpdate (Plain (PDict m')))))"
  by (cases b) (auto simp: CopyUpdate_or_def split: sum.splits dest: dict_update_exc)

text \<open>
  C7, as the code has it. When \<^verbatim>\<open>CopyUpdate.__or__\<close> cannot update its contents
  with the other value it returns the sentinel \<^verbatim>\<open>NotImplemented\<close> and raises
  nothing. Python then asks the other operand: a \<^verbatim>\<open>LastSeenWins\<close> wrapper answers
  with itself, and the fold of \<^verbatim>\<open>Options.match\<close> goes on from it; for any other
  operand the combination raises \<^verbatim>\<open>TypeError\<close>, and \<^verbatim>\<open>Options.match\<close> raises it
  to its caller. For a dictionary the sentinel is returned exactly when
  \<^verbatim>\<open>dict.update\<close> fails.
\<close>

theorem C7_amended:
  assumes "CopyUpdate_or p b = Inr None"
  shows "py_or (Wrap CopyUpdate p) b =
           (case b of Wrap LastSeenWins y \<Rightarrow> Inr b | _ \<Rightarrow> Inl TypeError) \<and>
         (fst (collect ns (rev (mro (type_of obj))) obj tw st []) = Inr opts \<longrightarrow>
          (if \<not> tw then sorted_by_cond opts else Inr opts) = Inr (x # pre @ (c, b) # post) \<longrightarrow>
          reduce_or (snd x) (map snd pre) = Inr (Wrap CopyUpdate p) \<longrightarrow>
          fst (Options_match ns st obj tw) =
            (case b of Wrap LastSeenWins y \<Rightarrow> reduce_or b (map snd post)
                     | _ \<Rightarrow> Inl TypeError)) \<and>
         CopyUpdate_or (Plain (PDict m)) b' =
           (case dict_update m (unwrap b') of
              Inl e \<Rightarrow> Inr None
            | Inr m' \<Rightarrow> Inr (Some (Wrap CopyUpdate (Plain (PDict m')))))"
proof -
  note s = CopyUpdate_sentinel [OF assms]
  have "fst (Options_match ns st obj tw) =
            (case b of Wrap LastSeenWins y \<Rightarrow> reduce_or b (map snd post)
                     | _ \<Rightarrow> Inl TypeError)"
    if c: "fst (collect ns (rev (mro (type_of obj))) obj tw st []) = Inr opts"
      and o: "(if \<not> tw then sorted_by_cond opts else Inr opts) = Inr (x # pre @ (c, b) # post)"
      and r: "reduce_or (snd x) (map snd pre) = Inr (Wrap CopyUpdate p)"
  proof -
    have "fst (Options_match ns st obj tw) = reduce_or (snd x) (map snd pre @ b # map snd post)"
      using Options_match_reduce [OF c o] by simp
    also have "\<dots> = (case py_or (Wrap CopyUpdate p) b of
                        Inl e \<Rightarrow> Inl e | Inr acc' \<Rightarrow> reduce_or acc' (map snd post))"
      using r by (simp add: reduce_or_append)
    also have "\<dots> = (case b of Wrap LastSeenWins y \<Rightarrow> reduce_or b (map snd post)
                     | _ \<Rightarrow> Inl TypeError)"
    proof (cases b)
      case (Plain q)
      then show ?thesis unfolding s by simp
    next
      case (Wrap k' v')
      then show ?thesis unfolding s by (cases k') simp_all
    qed
    finally show ?thesis .
  qed
  with s CopyUpdate_or_dict [of m b'] show ?thesis by blast
qed

text \<open>
  C7 as stated fails: in the specification \<^verbatim>\<open>{object: dict(), int: 'not a mapping'}\<close>
  the dictionary cannot be updated with the string, the combine step returns
  the sentinel, and matching \<open>0\<close> returns \<^verbatim>\<open>'not a mapping'\<close>: no error reaches the
  caller.
\<close>

theorem C7_counterexample:
  "CopyUpdate_or (Plain (PDict fmempty))
     (Wrap LastSeenWins (Plain (Atom (AStr ''not a mapping'')))) = Inr None \<and>
   fst (snd (from_patterns no_attrs [] WRAPPER_TYPES
     [(PatType object_t, Plain (PDict fmempty)),
      (PatType int_t, Plain (Atom (AStr ''not a mapping'')))])) =
     [(object_t, [(IsInstance object_t, Wrap CopyUpdate (Plain (PDict fmempty)))]),
      (int_t, [(IsInstance int_t, Wrap LastSeenWins (Plain (Atom (AStr ''not a mapping''))))])] \<and>
   fst (Spec_match no_attrs
     [(object_t, [(IsInstance object_t, Wrap CopyUpdate (Plain (PDict fmempty)))]),
      (int_t, [(IsInstance int_t, Wrap LastSeenWins (Plain (Atom (AStr ''not a mapping''))))])]
     (Plain (Atom (AInt 0))) False) = Inr (Plain (Atom (AStr ''not a mapping'')))"
proof -
  have a: "CopyUpdate_or (Plain (PDict fmempty))
     (Wrap LastSeenWins (Plain (Atom (AStr ''not a mapping'')))) = Inr None"
    by (simp add: CopyUpdate_or_def)
  have r1: "Spec_match no_attrs WRAPPER_TYPES (Plain (PDict fmempty)) False =
      (Inr (Plain (PCallable ClsCopyUpdate)), WRAPPER_TYPES)"
    by (simp add: WRAPPER_TYPES_eq Spec_match_def Options_match_def types_get_def
        sorted_by_cond_def py_lt_def mro_method_def py_or_def LastSeenWins_or_def IsInstance_match_def
        isinstance_def builtin_types)
  have r2: "fst (Spec_match no_attrs WRAPPER_TYPES (Plain (Atom (AStr ''not a mapping''))) False) =
      Inr (Plain (PCallable ClsLastSeenWins))"
    by (simp add: WRAPPER_TYPES_eq Spec_match_def Options_match_def types_get_def
        sorted_by_cond_def py_lt_def mro_method_def py_or_def LastSeenWins_or_def IsInstance_match_def
        isinstance_def builtin_types)
  obtain reg' where r2': "Spec_match no_attrs WRAPPER_TYPES (Plain (Atom (AStr ''not a mapping''))) False =
      (Inr (Plain (PCallable ClsLastSeenWins)), reg')"
    using r2 by (cases "Spec_match no_attrs WRAPPER_TYPES (Plain (Atom (AStr ''not a mapping''))) False") simp
  have b: "fst (snd (from_patterns no_attrs [] WRAPPER_TYPES
     [(PatType object_t, Plain (PDict fmempty)),
      (PatType int_t, Plain (Atom (AStr ''not a mapping'')))])) =
     [(object_t, [(IsInstance object_t, Wrap CopyUpdate (Plain (PDict fmempty)))]),
      (int_t, [(IsInstance int_t, Wrap LastSeenWins (Plain (Atom (AStr ''not a mapping''))))])]"
    by (simp add: add_pattern_def r1 r2' Options_setitem_def types_get_def builtin_types)
  have c: "fst (Spec_match no_attrs
     [(object_t, [(IsInstance object_t, Wrap CopyUpdate (Plain (PDict fmempty)))]),
      (int_t, [(IsInstance int_t, Wrap LastSeenWins (Plain (Atom (AStr ''not a mapping''))))])]
     (Plain (Atom (AInt 0))) False) = Inr (Plain (Atom (AStr ''not a mapping'')))"
    by (simp add: Spec_match_def Options_match_def types_get_def
        sorted_by_cond_def py_lt_def mro_method_def py_or_def CopyUpdate_or_def LastSeenWins_ror_def
        IsInstance_match_def isinstance_def builtin_types)
  from a b c show ?thesis by blast
qed

theorem C7_amended_witness:
  "CopyUpdate_or (Plain (PDict fmempty)) (Wrap CopyUpdate (Plain (Atom (AInt 5)))) = Inr None \<and>
   py_or (Wrap CopyUpdate (Plain (PDict fmempty))) (Wrap CopyUpdate (Plain (Atom (AInt 5)))) =
     Inl TypeError \<and>
   fst (Options_match no_attrs
     [(object_t, [(IsInstance object_t, Wrap CopyUpdate (Plain (PDict fmempty)))]),
      (int_t, [(IsInstance int_t, Wrap CopyUpdate (Plain (Atom (AInt 5))))])]
     (Plain (Atom (AInt 0))) False) = Inl TypeError"
proof -
  let ?p = "Plain (PDict fmempty)"
  let ?b = "Wrap CopyUpdate (Plain (Atom (AInt 5)))"
  let ?st = "[(object_t, [(IsInstance object_t, Wrap CopyUpdate ?p)]),
      (int_t, [(IsInstance int_t, ?b)])]"
  let ?obj = "Plain (Atom (AInt 0))"
  let ?opts = "[(IsInstance object_t, Wrap CopyUpdate ?p), (IsInstance int_t, ?b)]"
  have a: "CopyUpdate_or ?p ?b = Inr None"
    by (simp add: CopyUpdate_or_def)
  have c: "fst (collect no_attrs (rev (mro (type_of ?obj))) ?obj False ?st []) = Inr ?opts"
    by (simp add: types_get_def IsInstance_match_def isinstance_def builtin_types)
  have o: "(if \<not> False then sorted_by_cond ?opts else Inr ?opts) =
      Inr ((IsInstance object_t, Wrap CopyUpdate ?p) # [] @ (IsInstance int_t, ?b) # [])"
    by (simp add: sorted_by_cond_def py_lt_def mro_method_def builtin_types)
  have r: "reduce_or (snd (IsInstance object_t, Wrap CopyUpdate ?p)) (map snd []) =
      Inr (Wrap CopyUpdate ?p)"
    by simp
  from C7_amended [OF a, where ns = no_attrs and obj = ?obj and tw = False and st = ?st
      and opts = ?opts and x = "(IsInstance object_t, Wrap CopyUpdate ?p)" and pre = "[]"
      and c = "IsInstance int_t" and post = "[]"] c o r
  have "py_or (Wrap CopyUpdate ?p) ?b = Inl TypeError \<and>
        fst (Options_match no_attrs ?st ?obj False) = Inl TypeError"
    by simp
  with a show ?thesis by blast
qed

section \<open>Precedence of type-based and attribute-based conditions\<close>

lemma levels_append_Inr:
  "levels ns st obj tw (xs @ ys) = Inr s \<Longrightarrow>
     \<exists>a b. levels ns st obj tw xs = Inr a \<and> levels ns st obj tw ys = Inr b \<and> s = a @ b"
proof (induction xs arbitrary: s)
  case Nil
  then show ?case by simp
next
  case (Cons tp xs)
  from Cons.prems obtain m where m: "filter_matching ns (bucket_of st tp) obj = Inr m"
    by (cases "filter_matching ns (bucket_of st tp) obj") simp_all
  from Cons.prems m obtain l where l: "(if tw then sorted_by_cond m else Inr m) = Inr l"
    by (cases "if tw then sorted_by_cond m else Inr m") simp_all
  from Cons.prems m l obtain rest where
    rest: "levels ns st obj tw (xs @ ys) = Inr rest" "s = l @ rest"
    by (cases "levels ns st obj tw (xs @ ys)") simp_all
  from Cons.IH [OF rest(1)] obtain a b where
    ab: "levels ns st obj tw xs = Inr a" "levels ns st obj tw ys = Inr b" "rest = a @ b"
    by blast
  have "levels ns st obj tw (tp # xs) = Inr (l @ a)"
    using m l ab(1) by simp
  with ab(2,3) rest(2) show ?case by simp
qed

lemma satisfied_filter_matching:
  "filter_matching ns (bucket_of st tp) obj = Inr m \<Longrightarrow> m = satisfied ns st obj tp"
  using filter_matching_Inr [of ns "bucket_of st tp" obj m] by (simp add: satisfied_def)

lemma levels_set:
  "levels ns st obj tw tps = Inr s \<Longrightarrow> set s = (\<Union>tp \<in> set tps. set (satisfied ns st obj tp))"
proof (induction tps arbitrary: s)
  case Nil
  then show ?case by simp
next
  case (Cons tp tps)
  from Cons.prems obtain m where m: "filter_matching ns (bucket_of st tp) obj = Inr m"
    by (cases "filter_matching ns (bucket_of st tp) obj") simp_all
  from Cons.prems m obtain l where l: "(if tw then sorted_by_cond m else Inr m) = Inr l"
    by (cases "if tw then sorted_by_cond m else Inr m") simp_all
  from Cons.prems m l obtain rest where
    rest: "levels ns st obj tw tps = Inr rest" "s = l @ rest"
    by (cases "levels ns st obj tw tps") simp_all
  have "set l = set m"
  proof (cases tw)
    case True
    with l have "sorted_by_cond m = Inr l" by simp
    from sorted_by_cond_Inr(1) [OF this] show ?thesis .
  next
    case False
    with l show ?thesis by simp
  qed
  then have "set l = set (satisfied ns st obj tp)"
    using satisfied_filter_matching [OF m] by simp
  with Cons.IH [OF rest(1)] rest(2) show ?case by simp
qed

text \<open>In default mode the loop collects the satisfied entries level by level, in the
  order of the dictionaries.\<close>

lemma levels_default:
  "levels ns st obj False tps = Inr s \<Longrightarrow> s = concat (map (satisfied ns st obj) tps)"
proof (induction tps arbitrary: s)
  case Nil
  then show ?case by simp
next
  case (Cons tp tps)
  from Cons.prems obtain m where m: "filter_matching ns (bucket_of st tp) obj = Inr m"
    by (cases "filter_matching ns (bucket_of st tp) obj") simp_all
  from Cons.prems m obtain rest where
    rest: "levels ns st obj False tps = Inr rest" "s = m @ rest"
    by (cases "levels ns st obj False tps") simp_all
  from Cons.IH [OF rest(1)] rest(2) satisfied_filter_matching [OF m] show ?case by simp
qed

text \<open>In typewise mode it collects, level by level, the sorted satisfied entries.\<close>

lemma levels_typewise:
  "levels ns st obj True tps = Inr s \<Longrightarrow>
     \<exists>ls. s = concat ls \<and>
          list_all2 (\<lambda>tp l. sorted_by_cond (satisfied ns st obj tp) = Inr l) tps ls"
proof (induction tps arbitrary: s)
  case Nil
  then show ?case by simp
next
  case (Cons tp tps)
  from Cons.prems obtain m where m: "filter_matching ns (bucket_of st tp) obj = Inr m"
    by (cases "filter_matching ns (bucket_of st tp) obj") simp_all
  from Cons.prems m obtain l where l: "sorted_by_cond m = Inr l"
    by (cases "sorted_by_cond m") simp_all
  from Cons.prems m l obtain rest where
    rest: "levels ns st obj True tps = Inr rest" "s = l @ rest"
    by (cases "levels ns st obj True tps") simp_all
  from Cons.IH [OF rest(1)] obtain ls where
    ls: "rest = concat ls"
      "list_all2 (\<lambda>tp l. sorted_by_cond (satisfied ns st obj tp) = Inr l) tps ls"
    by blast
  have l': "sorted_by_cond (satisfied ns st obj tp) = Inr l"
    using l satisfied_filter_matching [OF m] by simp
  have "s = concat (l # ls)" using rest(2) ls(1) by simp
  moreover have "list_all2 (\<lambda>tp l. sorted_by_cond (satisfied ns st obj tp) = Inr l)
      (tp # tps) (l # ls)"
    using l' ls(2) by simp
  ultimately show ?case by blast
qed

lemma before_in_parts:
  assumes "x \<in> set l1" and "y \<in> set l2"
  shows "before_in x y (a @ l1 @ b @ l2 @ c)"
proof -
  from assms(1) obtain p q where l1: "l1 = p @ x # q" by (meson split_list)
  from assms(2) obtain p' q' where l2: "l2 = p' @ y # q'" by (meson split_list)
  have "a @ l1 @ b @ l2 @ c = (a @ p) @ x # (q @ b @ p') @ y # (q' @ c)"
    by (simp add: l1 l2)
  then show ?thesis unfolding before_in_iff by blast
qed

text \<open>A class comes before its strict ancestors in its own linearisation.\<close>

lemma strict_ancestor_before:
  assumes "tsup \<in> set (mro tsub)" and "tsup \<noteq> tsub"
  shows "before_in tsub tsup (mro tsub)"
proof -
  obtain n anc where c: "tsub = Class n anc" by (cases tsub)
  with assms have "tsup \<in> set anc" by auto
  with c show ?thesis by simp
qed

lemma reduce_or_two: "reduce_or a [b] = py_or a b"
  by (cases "py_or a b") simp_all

text \<open>
  C4, as the code has it, for every store. \<^verbatim>\<open>Options.match\<close> returns the fold with
  \<^verbatim>\<open>|\<close> of the values of the satisfied entries, taken in the order of its list
  \<^verbatim>\<open>options\<close>, and not one of these values. The store holds a type-based condition
  bound to a type \<open>tsub\<close>, with value \<open>wt\<close>, and an attribute- or item-based condition
  bound to a type \<open>tsup\<close>, with value \<open>wa\<close>, among whatever else it holds; \<open>tsub\<close> comes
  before \<open>tsup\<close> in the linearisation of the object's type, as a class does before
  its strict ancestors, and the object satisfies both conditions. In default mode
  the list is the sort of the satisfied entries of all levels: no attribute- or
  item-based entry is followed by a type-based one, so \<open>wt\<close> is combined before
  \<open>wa\<close>. With \<^verbatim>\<open>typewise=True\<close> the list is the concatenation, most general type
  first, of the sorted satisfied entries of each level, so \<open>wa\<close> is combined before
  \<open>wt\<close>. What a value combined later does to the result depends on the wrappers: a
  \<^verbatim>\<open>LastSeenWins\<close> value combined with a later value gives the later value, and two
  \<^verbatim>\<open>CopyUpdate\<close> dictionaries give the merge in which the entries of the later one
  override.
\<close>

theorem C4_amended:
  assumes "(IsInstance tsub, wt) \<in> set (fst (types_get st tsub))"
    and "(Comparison k tsup i op r, wa) \<in> set (fst (types_get st tsup))"
    and "cond_match ns (Comparison k tsup i op r) obj = Inr True"
    and "before_in tsub tsup (mro (type_of obj))"
  shows "fst (Options_match ns st obj tw) =
           (case combination_order ns st obj tw of
              Inl e \<Rightarrow> Inl e
            | Inr options \<Rightarrow>
                (case map snd options of
                   [] \<Rightarrow> Inl (NoMatchError obj)
                 | v # vs \<Rightarrow> reduce_or v vs)) \<and>
         cond_match ns (IsInstance tsub) obj = Inr True \<and>
         (combination_order ns st obj False = Inr s \<longrightarrow>
            sorted_by_cond (concat (map (satisfied ns st obj) (rev (mro (type_of obj))))) = Inr s \<and>
            sorted_wrt (\<lambda>a b. is_Comparison (fst a) \<longrightarrow> is_Comparison (fst b)) s \<and>
            before_in (IsInstance tsub, wt) (Comparison k tsup i op r, wa) s) \<and>
         (combination_order ns st obj True = Inr s' \<longrightarrow>
            (\<exists>ls. s' = concat ls \<and>
                  list_all2 (\<lambda>tp l. sorted_by_cond (satisfied ns st obj tp) = Inr l)
                    (rev (mro (type_of obj))) ls) \<and>
            before_in (Comparison k tsup i op r, wa) (IsInstance tsub, wt) s') \<and>
         py_or (Wrap LastSeenWins x) b = Inr b \<and>
         py_or (Wrap CopyUpdate (Plain (PDict m1))) (Wrap CopyUpdate (Plain (PDict m2))) =
           Inr (Wrap CopyUpdate (Plain (PDict (m1 ++\<^sub>f m2))))"
proof -
  let ?chain = "rev (mro (type_of obj))"
  let ?et = "(IsInstance tsub, wt)"
  let ?ea = "(Comparison k tsup i op r, wa)"
  from assms(4) obtain as bs cs where m: "mro (type_of obj) = as @ tsub # bs @ tsup # cs"
    unfolding before_in_iff by blast
  have chain: "?chain = rev cs @ [tsup] @ rev bs @ [tsub] @ rev as"
    by (simp add: m)
  have in_sub: "tsub \<in> set (mro (type_of obj))" and in_sup: "tsup \<in> set (mro (type_of obj))"
    by (simp_all add: m)
  have mt: "cond_match ns (IsInstance tsub) obj = Inr True"
    using in_sub by (simp add: IsInstance_match_def isinstance_def)
  have sat_t: "?et \<in> set (satisfied ns st obj tsub)"
    using assms(1) mt by (simp add: satisfied_def types_get_fst)
  have sat_a: "?ea \<in> set (satisfied ns st obj tsup)"
    using assms(2,3) by (simp add: satisfied_def types_get_fst)
  have 1: "fst (Options_match ns st obj tw) =
           (case combination_order ns st obj tw of
              Inl e \<Rightarrow> Inl e
            | Inr options \<Rightarrow>
                (case map snd options of
                   [] \<Rightarrow> Inl (NoMatchError obj)
                 | v # vs \<Rightarrow> reduce_or v vs))"
    by (rule Options_match_order)
  have 2: "sorted_by_cond (concat (map (satisfied ns st obj) ?chain)) = Inr s \<and>
            sorted_wrt (\<lambda>a b. is_Comparison (fst a) \<longrightarrow> is_Comparison (fst b)) s \<and>
            before_in ?et ?ea s"
    if co: "combination_order ns st obj False = Inr s"
  proof -
    from co obtain opts where lv: "levels ns st obj False ?chain = Inr opts"
      and so: "sorted_by_cond opts = Inr s"
      by (cases "levels ns st obj False ?chain") (simp_all add: combination_order_levels)
    have opts: "opts = concat (map (satisfied ns st obj) ?chain)"
      by (rule levels_default [OF lv])
    have "set opts = (\<Union>tp \<in> set ?chain. set (satisfied ns st obj tp))"
      by (rule levels_set [OF lv])
    with sat_t sat_a in_sub in_sup have mem: "?et \<in> set opts" "?ea \<in> set opts"
      by auto
    note srt = sorted_by_cond_Inr [OF so]
    from mem srt(1) have mem': "?et \<in> set s" "?ea \<in> set s" by simp_all
    have "before_in ?et ?ea s"
      by (rule before_in_sorted [OF srt(3) mem'(1) _ mem'(2)]) simp_all
    with so opts srt(3) show ?thesis by simp
  qed
  have 3: "(\<exists>ls. s' = concat ls \<and>
                  list_all2 (\<lambda>tp l. sorted_by_cond (satisfied ns st obj tp) = Inr l) ?chain ls) \<and>
            before_in ?ea ?et s'"
    if co: "combination_order ns st obj True = Inr s'"
  proof -
    from co have lv: "levels ns st obj True ?chain = Inr s'"
      by (cases "levels ns st obj True ?chain") (simp_all add: combination_order_levels)
    note str = levels_typewise [OF lv]
    from lv have "levels ns st obj True (rev cs @ [tsup] @ rev bs @ [tsub] @ rev as) = Inr s'"
      unfolding chain .
    from levels_append_Inr [OF this] obtain a1 r1 where
      a1: "levels ns st obj True ([tsup] @ rev bs @ [tsub] @ rev as) = Inr r1" "s' = a1 @ r1"
      by blast
    from levels_append_Inr [OF a1(1)] obtain l1 r2 where
      l1: "levels ns st obj True [tsup] = Inr l1"
        "levels ns st obj True (rev bs @ [tsub] @ rev as) = Inr r2" "r1 = l1 @ r2"
      by blast
    from levels_append_Inr [OF l1(2)] obtain a2 r3 where
      a2: "levels ns st obj True ([tsub] @ rev as) = Inr r3" "r2 = a2 @ r3"
      by blast
    from levels_append_Inr [OF a2(1)] obtain l2 a3 where
      l2: "levels ns st obj True [tsub] = Inr l2" "r3 = l2 @ a3"
      by blast
    have s': "s' = a1 @ l1 @ a2 @ l2 @ a3"
      using a1(2) l1(3) a2(2) l2(2) by simp
    have "?ea \<in> set l1" using levels_set [OF l1(1)] sat_a by simp
    moreover have "?et \<in> set l2" using levels_set [OF l2(1)] sat_t by simp
    ultimately have "before_in ?ea ?et s'"
      unfolding s' by (rule before_in_parts)
    with str show ?thesis by blast
  qed
  have 4: "py_or (Wrap LastSeenWins x) b = Inr b"
    by (simp add: py_or_def LastSeenWins_or_def)
  have 5: "py_or (Wrap CopyUpdate (Plain (PDict m1))) (Wrap CopyUpdate (Plain (PDict m2))) =
           Inr (Wrap CopyUpdate (Plain (PDict (m1 ++\<^sub>f m2))))"
    by (simp add: py_or_def CopyUpdate_or_def)
  from 1 mt 2 3 4 5 show ?thesis by blast
qed

text \<open>
  C4 as stated fails: with the dictionaries \<^verbatim>\<open>{'x': 1}\<close> for the type \<open>B\<close> and
  \<^verbatim>\<open>{'y': 2}\<close> for \<^verbatim>\<open>match(A).a > 0\<close>, matching an instance of \<open>B\<close> with \<open>a = 1\<close> in
  default mode returns the merge \<^verbatim>\<open>{'x': 1, 'y': 2}\<close> and not the value \<^verbatim>\<open>{'y': 2}\<close>
  of the attribute-based condition.
\<close>

theorem C4_counterexample:
  "fst (snd (from_patterns no_attrs [] WRAPPER_TYPES
     [(PatType (Class ''B'' [Class ''A'' [object_t], object_t]),
       Plain (PDict (fmupd (AStr ''x'') (AInt 1) fmempty))),
      (PatCond (Comparison CompareAttr (Class ''A'' [object_t]) (AStr ''a'') OpGt (Atom (AInt 0))),
       Plain (PDict (fmupd (AStr ''y'') (AInt 2) fmempty)))])) =
     [(Class ''B'' [Class ''A'' [object_t], object_t],
       [(IsInstance (Class ''B'' [Class ''A'' [object_t], object_t]),
         Wrap CopyUpdate (Plain (PDict (fmupd (AStr ''x'') (AInt 1) fmempty))))]),
      (Class ''A'' [object_t],
       [(Comparison CompareAttr (Class ''A'' [object_t]) (AStr ''a'') OpGt (Atom (AInt 0)),
         Wrap CopyUpdate (Plain (PDict (fmupd (AStr ''y'') (AInt 2) fmempty))))])] \<and>
   fst (Spec_match no_attrs
     [(Class ''B'' [Class ''A'' [object_t], object_t],
       [(IsInstance (Class ''B'' [Class ''A'' [object_t], object_t]),
         Wrap CopyUpdate (Plain (PDict (fmupd (AStr ''x'') (AInt 1) fmempty))))]),
      (Class ''A'' [object_t],
       [(Comparison CompareAttr (Class ''A'' [object_t]) (AStr ''a'') OpGt (Atom (AInt 0)),
         Wrap CopyUpdate (Plain (PDict (fmupd (AStr ''y'') (AInt 2) fmempty))))])]
     (Plain (PInst 1 (Class ''B'' [Class ''A'' [object_t], object_t]) [(''a'', Atom (AInt 1))]))
     False) =
     Inr (Plain (PDict (fmupd (AStr ''y'') (AInt 2) (fmupd (AStr ''x'') (AInt 1) fmempty)))) \<and>
   fst (Spec_match no_attrs
     [(Class ''B'' [Class ''A'' [object_t], object_t],
       [(IsInstance (Class ''B'' [Class ''A'' [object_t], object_t]),
         Wrap CopyUpdate (Plain (PDict (fmupd (AStr ''x'') (AInt 1) fmempty))))]),
      (Class ''A'' [object_t],
       [(Comparison CompareAttr (Class ''A'' [object_t]) (AStr ''a'') OpGt (Atom (AInt 0)),
         Wrap CopyUpdate (Plain (PDict (fmupd (AStr ''y'') (AInt 2) fmempty))))])]
     (Plain (PInst 1 (Class ''B'' [Class ''A'' [object_t], object_t]) [(''a'', Atom (AInt 1))]))
     False) \<noteq>
     Inr (Plain (PDict (fmupd (AStr ''y'') (AInt 2) fmempty)))"
proof -
  let ?A = "Class ''A'' [object_t]"
  let ?B = "Class ''B'' [?A, object_t]"
  let ?c = "Comparison CompareAttr ?A (AStr ''a'') OpGt (Atom (AInt 0))"
  let ?vx = "Plain (PDict (fmupd (AStr ''x'') (AInt 1) fmempty))"
  let ?vy = "Plain (PDict (fmupd (AStr ''y'') (AInt 2) fmempty))"
  let ?st = "[(?B, [(IsInstance ?B, Wrap CopyUpdate ?vx)]), (?A, [(?c, Wrap CopyUpdate ?vy)])]"
  let ?obj = "Plain (PInst 1 ?B [(''a'', Atom (AInt 1))])"
  have r: "Spec_match no_attrs WRAPPER_TYPES (Plain (PDict m)) False =
      (Inr (Plain (PCallable ClsCopyUpdate)), WRAPPER_TYPES)" for m
    by (simp add: WRAPPER_TYPES_eq Spec_match_def Options_match_def types_get_def
        sorted_by_cond_def py_lt_def mro_method_def py_or_def LastSeenWins_or_def IsInstance_match_def
        isinstance_def builtin_types)
  have a: "fst (snd (from_patterns no_attrs [] WRAPPER_TYPES [(PatType ?B, ?vx), (PatCond ?c, ?vy)])) = ?st"
    by (simp add: add_pattern_def r Options_setitem_def types_get_def builtin_types)
  have b: "fst (Spec_match no_attrs ?st ?obj False) =
      Inr (Plain (PDict (fmupd (AStr ''y'') (AInt 2) (fmupd (AStr ''x'') (AInt 1) fmempty))))"
    by (simp add: Spec_match_def Options_match_def types_get_def
        sorted_by_cond_def py_lt_def mro_method_def py_or_def CopyUpdate_or_def Comparison_match_def no_attrs_def
        IsInstance_match_def isinstance_def builtin_types)
  have "fmupd (AStr ''y'') (AInt 2) (fmupd (AStr ''x'') (AInt 1) fmempty) \<noteq>
      fmupd (AStr ''y'') (AInt 2) fmempty"
  proof
    assume "fmupd (AStr ''y'') (AInt 2) (fmupd (AStr ''x'') (AInt 1) fmempty) =
      fmupd (AStr ''y'') (AInt 2) fmempty"
    then have "fmlookup (fmupd (AStr ''y'') (AInt 2) (fmupd (AStr ''x'') (AInt 1) fmempty))
        (AStr ''x'') = fmlookup (fmupd (AStr ''y'') (AInt 2) fmempty) (AStr ''x'')"
      by simp
    then show False by simp
  qed
  with b have c: "fst (Spec_match no_attrs ?st ?obj False) \<noteq> Inr ?vy"
    by simp
  from a b c show ?thesis by blast
qed

text \<open>
  The store of the repository's tests, as far as an instance of \<open>B\<close> reaches it:
  \<^verbatim>\<open>{A: {'name': 'a'}, match(A).a > 0: {'name': 'a+'}, match(A).a < 0: {'name': 'a-'},
  B: {'name': 'b'}, match(B).b > 0: {'name': 'b+'}, match(B).b < 0: {'name': 'b-'}}\<close> with
  \<open>B\<close> a subclass of \<open>A\<close>, matched against an instance of \<open>B\<close> with \<open>a = 1\<close>. In
  default mode the values are combined in the order \<open>a\<close>, \<open>b\<close>, \<open>a+\<close> and the result is
  \<^verbatim>\<open>{'name': 'a+'}\<close>; with \<^verbatim>\<open>typewise=True\<close> the order is \<open>a\<close>, \<open>a+\<close>, \<open>b\<close> and the result is
  \<^verbatim>\<open>{'name': 'b'}\<close>.
\<close>

theorem C4_amended_witness:
  "(IsInstance (Class ''B'' [Class ''A'' [object_t], object_t]), Wrap CopyUpdate (Plain (PDict (fmupd (AStr ''name'') (AStr ''b'') fmempty))))
     \<in> set (fst (types_get
        [(Class ''A'' [object_t],
          [(IsInstance (Class ''A'' [object_t]),
            Wrap CopyUpdate (Plain (PDict (fmupd (AStr ''name'') (AStr ''a'') fmempty)))),
           (Comparison CompareAttr (Class ''A'' [object_t]) (AStr ''a'') OpGt (Atom (AInt 0)),
            Wrap CopyUpdate (Plain (PDict (fmupd (AStr ''name'') (AStr ''a+'') fmempty)))),
           (Comparison CompareAttr (Class ''A'' [object_t]) (AStr ''a'') OpLt (Atom (AInt 0)),
            Wrap CopyUpdate (Plain (PDict (fmupd (AStr ''name'') (AStr ''a-'') fmempty))))]),
         (Class ''B'' [Class ''A'' [object_t], object_t],
          [(IsInstance (Class ''B'' [Class ''A'' [object_t], object_t]),
            Wrap CopyUpdate (Plain (PDict (fmupd (AStr ''name'') (AStr ''b'') fmempty)))),
           (Comparison CompareAttr (Class ''B'' [Class ''A'' [object_t], object_t]) (AStr ''b'') OpGt (Atom (AInt 0)),
            Wrap CopyUpdate (Plain (PDict (fmupd (AStr ''name'') (AStr ''b+'') fmempty)))),
           (Comparison CompareAttr (Class ''B'' [Class ''A'' [object_t], object_t]) (AStr ''b'') OpLt (Atom (AInt 0)),
            Wrap CopyUpdate (Plain (PDict (fmupd (AStr ''name'') (AStr ''b-'') fmempty))))])]
        (Class ''B'' [Class ''A'' [object_t], object_t]))) \<and>
   (Comparison CompareAttr (Class ''A'' [object_t]) (AStr ''a'') OpGt (Atom (AInt 0)),
    Wrap CopyUpdate (Plain (PDict (fmupd (AStr ''name'') (AStr ''a+'') fmempty))))
     \<in> set (fst (types_get
        [(Class ''A'' [object_t],
          [(IsInstance (Class ''A'' [object_t]),
            Wrap CopyUpdate (Plain (PDict (fmupd (AStr ''name'') (AStr ''a'') fmempty)))),
           (Comparison CompareAttr (Class ''A'' [object_t]) (AStr ''a'') OpGt (Atom (AInt 0)),
            Wrap CopyUpdate (Plain (PDict (fmupd (AStr ''name'') (AStr ''a+'') fmempty)))),
           (Comparison CompareAttr (Class ''A'' [object_t]) (AStr ''a'') OpLt (Atom (AInt 0)),
            Wrap CopyUpdate (Plain (PDict (fmupd (AStr ''name'') (AStr ''a-'') fmempty))))]),
         (Class ''B'' [Class ''A'' [object_t], object_t],
          [(IsInstance (Class ''B'' [Class ''A'' [object_t], object_t]),
            Wrap CopyUpdate (Plain (PDict (fmupd (AStr ''name'') (AStr ''b'') fmempty)))),
           (Comparison CompareAttr (Class ''B'' [Class ''A'' [object_t], object_t]) (AStr ''b'') OpGt (Atom (AInt 0)),
            Wrap CopyUpdate (Plain (PDict (fmupd (AStr ''name'') (AStr ''b+'') fmempty)))),
           (Comparison CompareAttr (Class ''B'' [Class ''A'' [object_t], object_t]) (AStr ''b'') OpLt (Atom (AInt 0)),
            Wrap CopyUpdate (Plain (PDict (fmupd (AStr ''name'') (AStr ''b-'') fmempty))))])]
        (Class ''A'' [object_t]))) \<and>
   cond_match no_attrs
     (Comparison CompareAttr (Class ''A'' [object_t]) (AStr ''a'') OpGt (Atom (AInt 0)))
     (Plain (PInst 1 (Class ''B'' [Class ''A'' [object_t], object_t]) [(''a'', Atom (AInt 1))])) = Inr True \<and>
   before_in (Class ''B'' [Class ''A'' [object_t], object_t]) (Class ''A'' [object_t])
     (mro (type_of (Plain (PInst 1 (Class ''B'' [Class ''A'' [object_t], object_t]) [(''a'', Atom (AInt 1))])))) \<and>
   combination_order no_attrs
        [(Class ''A'' [object_t],
          [(IsInstance (Class ''A'' [object_t]),
            Wrap CopyUpdate (Plain (PDict (fmupd (AStr ''name'') (AStr ''a'') fmempty)))),
           (Comparison CompareAttr (Class ''A'' [object_t]) (AStr ''a'') OpGt (Atom (AInt 0)),
            Wrap CopyUpdate (Plain (PDict (fmupd (AStr ''name'') (AStr ''a+'') fmempty)))),
           (Comparison CompareAttr (Class ''A'' [object_t]) (AStr ''a'') OpLt (Atom (AInt 0)),
            Wrap CopyUpdate (Plain (PDict (fmupd (AStr ''name'') (AStr ''a-'') fmempty))))]),
         (Class ''B'' [Class ''A'' [object_t], object_t],
          [(IsInstance (Class ''B'' [Class ''A'' [object_t], object_t]),
            Wrap CopyUpdate (Plain (PDict (fmupd (AStr ''name'') (AStr ''b'') fmempty)))),
           (Comparison CompareAttr (Class ''B'' [Class ''A'' [object_t], object_t]) (AStr ''b'') OpGt (Atom (AInt 0)),
            Wrap CopyUpdate (Plain (PDict (fmupd (AStr ''name'') (AStr ''b+'') fmempty)))),
           (Comparison CompareAttr (Class ''B'' [Class ''A'' [object_t], object_t]) (AStr ''b'') OpLt (Atom (AInt 0)),
            Wrap CopyUpdate (Plain (PDict (fmupd (AStr ''name'') (AStr ''b-'') fmempty))))])]
        (Plain (PInst 1 (Class ''B'' [Class ''A'' [object_t], object_t]) [(''a'', Atom (AInt 1))])) False =
     Inr [(IsInstance (Class ''A'' [object_t]),
            Wrap CopyUpdate (Plain (PDict (fmupd (AStr ''name'') (AStr ''a'') fmempty)))),
          (IsInstance (Class ''B'' [Class ''A'' [object_t], object_t]),
            Wrap CopyUpdate (Plain (PDict (fmupd (AStr ''name'') (AStr ''b'') fmempty)))),
          (Comparison CompareAttr (Class ''A'' [object_t]) (AStr ''a'') OpGt (Atom (AInt 0)),
            Wrap CopyUpdate (Plain (PDict (fmupd (AStr ''name'') (AStr ''a+'') fmempty))))] \<and>
   fst (Options_match no_attrs
        [(Class ''A'' [object_t],
          [(IsInstance (Class ''A'' [object_t]),
            Wrap CopyUpdate (Plain (PDict (fmupd (AStr ''name'') (AStr ''a'') fmempty)))),
           (Comparison CompareAttr (Class ''A'' [object_t]) (AStr ''a'') OpGt (Atom (AInt 0)),
            Wrap CopyUpdate (Plain (PDict (fmupd (AStr ''name'') (AStr ''a+'') fmempty)))),
           (Comparison CompareAttr (Class ''A'' [object_t]) (AStr ''a'') OpLt (Atom (AInt 0)),
            Wrap CopyUpdate (Plain (PDict (fmupd (AStr ''name'') (AStr ''a-'') fmempty))))]),
         (Class ''B'' [Class ''A'' [object_t], object_t],
          [(IsInstance (Class ''B'' [Class ''A'' [object_t], object_t]),
            Wrap CopyUpdate (Plain (PDict (fmupd (AStr ''name'') (AStr ''b'') fmempty)))),
           (Comparison CompareAttr (Class ''B'' [Class ''A'' [object_t], object_t]) (AStr ''b'') OpGt (Atom (AInt 0)),
            Wrap CopyUpdate (Plain (PDict (fmupd (AStr ''name'') (AStr ''b+'') fmempty)))),
           (Comparison CompareAttr (Class ''B'' [Class ''A'' [object_t], object_t]) (AStr ''b'') OpLt (Atom (AInt 0)),
            Wrap CopyUpdate (Plain (PDict (fmupd (AStr ''name'') (AStr ''b-'') fmempty))))])]
        (Plain (PInst 1 (Class ''B'' [Class ''A'' [object_t], object_t]) [(''a'', Atom (AInt 1))])) False) =
     Inr (Wrap CopyUpdate (Plain (PDict (fmupd (AStr ''name'') (AStr ''a+'') fmempty)))) \<and>
   combination_order no_attrs
        [(Class ''A'' [object_t],
          [(IsInstance (Class ''A'' [object_t]),
            Wrap CopyUpdate (Plain (PDict (fmupd (AStr ''name'') (AStr ''a'') fmempty)))),
           (Comparison CompareAttr (Class ''A'' [object_t]) (AStr ''a'') OpGt (Atom (AInt 0)),
            Wrap CopyUpdate (Plain (PDict (fmupd (AStr ''name'') (AStr ''a+'') fmempty)))),
           (Comparison CompareAttr (Class ''A'' [object_t]) (AStr ''a'') OpLt (Atom (AInt 0)),
            Wrap CopyUpdate (Plain (PDict (fmupd (AStr ''name'') (AStr ''a-'') fmempty))))]),
         (Class ''B'' [Class ''A'' [object_t], object_t],
          [(IsInstance (Class ''B'' [Class ''A'' [object_t], object_t]),
            Wrap CopyUpdate (Plain (PDict (fmupd (AStr ''name'') (AStr ''b'') fmempty)))),
           (Comparison CompareAttr (Class ''B'' [Class ''A'' [object_t], object_t]) (AStr ''b'') OpGt (Atom (AInt 0)),
            Wrap CopyUpdate (Plain (PDict (fmupd (AStr ''name'') (AStr ''b+'') fmempty)))),
           (Comparison CompareAttr (Class ''B'' [Class ''A'' [object_t], object_t]) (AStr ''b'') OpLt (Atom (AInt 0)),
            Wrap CopyUpdate (Plain (PDict (fmupd (AStr ''name'') (AStr ''b-'') fmempty))))])]
        (Plain (PInst 1 (Class ''B'' [Class ''A'' [object_t], object_t]) [(''a'', Atom (AInt 1))])) True =
     Inr [(IsInstance (Class ''A'' [object_t]),
            Wrap CopyUpdate (Plain (PDict (fmupd (AStr ''name'') (AStr ''a'') fmempty)))),
          (Comparison CompareAttr (Class ''A'' [object_t]) (AStr ''a'') OpGt (Atom (AInt 0)),
            Wrap CopyUpdate (Plain (PDict (fmupd (AStr ''name'') (AStr ''a+'') fmempty)))),
          (IsInstance (Class ''B'' [Class ''A'' [object_t], object_t]),
            Wrap CopyUpdate (Plain (PDict (fmupd (AStr ''name'') (AStr ''b'') fmempty))))] \<and>
   fst (Options_match no_attrs
        [(Class ''A'' [object_t],
          [(IsInstance (Class ''A'' [object_t]),
            Wrap CopyUpdate (Plain (PDict (fmupd (AStr ''name'') (AStr ''a'') fmempty)))),
           (Comparison CompareAttr (Class ''A'' [object_t]) (AStr ''a'') OpGt (Atom (AInt 0)),
            Wrap CopyUpdate (Plain (PDict (fmupd (AStr ''name'') (AStr ''a+'') fmempty)))),
           (Comparison CompareAttr (Class ''A'' [object_t]) (AStr ''a'') OpLt (Atom (AInt 0)),
            Wrap CopyUpdate (Plain (PDict (fmupd (AStr ''name'') (AStr ''a-'') fmempty))))]),
         (Class ''B'' [Class ''A'' [object_t], object_t],
          [(IsInstance (Class ''B'' [Class ''A'' [object_t], object_t]),
            Wrap CopyUpdate (Plain (PDict (fmupd (AStr ''name'') (AStr ''b'') fmempty)))),
           (Comparison CompareAttr (Class ''B'' [Class ''A'' [object_t], object_t]) (AStr ''b'') OpGt (Atom (AInt 0)),
            Wrap CopyUpdate (Plain (PDict (fmupd (AStr ''name'') (AStr ''b+'') fmempty)))),
           (Comparison CompareAttr (Class ''B'' [Class ''A'' [object_t], object_t]) (AStr ''b'') OpLt (Atom (AInt 0)),
            Wrap CopyUpdate (Plain (PDict (fmupd (AStr ''name'') (AStr ''b-'') fmempty))))])]
        (Plain (PInst 1 (Class ''B'' [Class ''A'' [object_t], object_t]) [(''a'', Atom (AInt 1))])) True) =
     Inr (Wrap CopyUpdate (Plain (PDict (fmupd (AStr ''name'') (AStr ''b'') fmempty))))"
proof -
  let ?A = "Class ''A'' [object_t]"
  let ?B = "Class ''B'' [?A, object_t]"
  let ?d = "\<lambda>n. Wrap CopyUpdate (Plain (PDict (fmupd (AStr ''name'') (AStr n) fmempty)))"
  let ?ca = "Comparison CompareAttr ?A (AStr ''a'') OpGt (Atom (AInt 0))"
  let ?ca' = "Comparison CompareAttr ?A (AStr ''a'') OpLt (Atom (AInt 0))"
  let ?cb = "Comparison CompareAttr ?B (AStr ''b'') OpGt (Atom (AInt 0))"
  let ?cb' = "Comparison CompareAttr ?B (AStr ''b'') OpLt (Atom (AInt 0))"
  let ?st = "[(?A, [(IsInstance ?A, ?d ''a''), (?ca, ?d ''a+''), (?ca', ?d ''a-'')]),
              (?B, [(IsInstance ?B, ?d ''b''), (?cb, ?d ''b+''), (?cb', ?d ''b-'')])]"
  let ?obj = "Plain (PInst 1 ?B [(''a'', Atom (AInt 1))])"
  have AB: "?A \<noteq> ?B" "?A \<noteq> object_t" "?B \<noteq> object_t" "object_t \<noteq> ?A" "object_t \<noteq> ?B"
    by (simp_all add: builtin_types)
  have h1: "(IsInstance ?B, ?d ''b'') \<in> set (fst (types_get ?st ?B))"
    by (simp add: types_get_def)
  have h2: "(?ca, ?d ''a+'') \<in> set (fst (types_get ?st ?A))"
    by (simp add: types_get_def)
  have h3: "cond_match no_attrs ?ca ?obj = Inr True"
    by (simp add: Comparison_match_def no_attrs_def)
  have h4: "before_in ?B ?A (mro (type_of ?obj))"
    by simp
  have lvF: "levels no_attrs ?st ?obj False (rev (mro (type_of ?obj))) =
      Inr [(IsInstance ?A, ?d ''a''), (?ca, ?d ''a+''), (IsInstance ?B, ?d ''b'')]"
    using AB
    by (simp add: bucket_of_def Comparison_match_def no_attrs_def IsInstance_match_def
          isinstance_def)
  have lvT: "levels no_attrs ?st ?obj True (rev (mro (type_of ?obj))) =
      Inr [(IsInstance ?A, ?d ''a''), (?ca, ?d ''a+''), (IsInstance ?B, ?d ''b'')]"
    using AB
    by (simp add: bucket_of_def Comparison_match_def no_attrs_def IsInstance_match_def
          isinstance_def sorted_by_cond_def py_lt_def mro_method_def builtin_types)
  have srt: "sorted_by_cond [(IsInstance ?A, ?d ''a''), (?ca, ?d ''a+''), (IsInstance ?B, ?d ''b'')] =
      Inr [(IsInstance ?A, ?d ''a''), (IsInstance ?B, ?d ''b''), (?ca, ?d ''a+'')]"
    by (simp add: sorted_by_cond_def py_lt_def mro_method_def builtin_types)
  have coF: "combination_order no_attrs ?st ?obj False =
      Inr [(IsInstance ?A, ?d ''a''), (IsInstance ?B, ?d ''b''), (?ca, ?d ''a+'')]"
    unfolding combination_order_levels lvF using srt by simp
  have coT: "combination_order no_attrs ?st ?obj True =
      Inr [(IsInstance ?A, ?d ''a''), (?ca, ?d ''a+''), (IsInstance ?B, ?d ''b'')]"
    unfolding combination_order_levels lvT by simp
  note inst = C4_amended [OF h1 h2 h3 h4]
  have rF: "fst (Options_match no_attrs ?st ?obj False) = Inr (?d ''a+'')"
    using inst [where tw = False] coF
    by (simp add: py_or_def CopyUpdate_or_def)
  have rT: "fst (Options_match no_attrs ?st ?obj True) = Inr (?d ''b'')"
    using inst [where tw = True] coT
    by (simp add: py_or_def CopyUpdate_or_def)
  from h1 h2 h3 h4 coF rF coT rT show ?thesis by blast
qed

end
